theory Spec2Isabelle
  imports Main "HOL-Library.Char_ord" "HOL-Library.List_Lexorder"
begin

section \<open>Errors\<close>

text \<open>
  The exceptions the modelled code can raise, as values. \<open>ValueError\<close>, \<open>KeyError\<close> and
  \<open>TypeError\<close> are raised by \<^verbatim>\<open>school.py\<close>; \<open>IntegrityError\<close> is
  \<^verbatim>\<open>sqlite3.IntegrityError\<close> (a PRIMARY KEY, UNIQUE or FOREIGN KEY constraint failed) and
  \<open>OverflowError\<close> is what the \<^verbatim>\<open>sqlite3\<close> binding raises for a Python integer that does
  not fit SQLite's 64-bit INTEGER.
\<close>

datatype error = ValueError | KeyError | TypeError | IntegrityError | OverflowError

section \<open>Validation (\<^verbatim>\<open>school.py\<close>, \<^verbatim>\<open>app_tk_done.py\<close>)\<close>

subsection \<open>Regular expressions\<close>

text \<open>
  The two validators hand a pattern to Python's \<^verbatim>\<open>re\<close> module. The pattern uses character
  classes, concatenation, \<^verbatim>\<open>+\<close> and \<^verbatim>\<open>{2,}\<close> only, so it is a regular expression in the
  strict sense. \<open>rx\<close> is its syntax; \<open>matches\<close> decides by derivatives whether a whole
  string belongs to it, which is what \<^verbatim>\<open>fullmatch\<close> decides.
  A Python \<^verbatim>\<open>str\<close> is modelled as a \<open>string\<close>, each \<open>char\<close> a code point below 256.
\<close>

datatype rx =
    Void
  | Eps
  | Cls "char \<Rightarrow> bool"
  | Alt rx rx
  | Seq rx rx
  | Star rx

fun nullable :: "rx \<Rightarrow> bool" where
  "nullable Void = False"
| "nullable Eps = True"
| "nullable (Cls p) = False"
| "nullable (Alt r s) = (nullable r \<or> nullable s)"
| "nullable (Seq r s) = (nullable r \<and> nullable s)"
| "nullable (Star r) = True"

fun deriv :: "char \<Rightarrow> rx \<Rightarrow> rx" where
  "deriv c Void = Void"
| "deriv c Eps = Void"
| "deriv c (Cls p) = (if p c then Eps else Void)"
| "deriv c (Alt r s) = Alt (deriv c r) (deriv c s)"
| "deriv c (Seq r s) =
     (if nullable r then Alt (Seq (deriv c r) s) (deriv c s) else Seq (deriv c r) s)"
| "deriv c (Star r) = Seq (deriv c r) (Star r)"

fun matches :: "rx \<Rightarrow> string \<Rightarrow> bool" where
  "matches r [] = nullable r"
| "matches r (c # cs) = matches (deriv c r) cs"

text \<open>\<^verbatim>\<open>X+\<close> and \<^verbatim>\<open>X{2,}\<close>.\<close>

definition OneOrMore :: "rx \<Rightarrow> rx" where
  "OneOrMore r = Seq r (Star r)"

definition TwoOrMore :: "rx \<Rightarrow> rx" where
  "TwoOrMore r = Seq r (Seq r (Star r))"

definition Lit :: "char \<Rightarrow> rx" where
  "Lit c = Cls (\<lambda>x. x = c)"

text \<open>The character classes \<^verbatim>\<open>[a-zA-Z]\<close>, \<^verbatim>\<open>[a-zA-Z0-9]\<close>, \<^verbatim>\<open>[a-zA-Z0-9._%+-]\<close> and
  \<^verbatim>\<open>[a-zA-Z0-9.-]\<close>. Without \<^verbatim>\<open>re.IGNORECASE\<close> the ranges are ASCII ranges.\<close>

definition is_letter :: "char \<Rightarrow> bool" where
  "is_letter c = (let n = (of_char c :: nat) in (97 \<le> n \<and> n \<le> 122) \<or> (65 \<le> n \<and> n \<le> 90))"

definition is_alnum :: "char \<Rightarrow> bool" where
  "is_alnum c = (let n = (of_char c :: nat) in is_letter c \<or> (48 \<le> n \<and> n \<le> 57))"

definition is_local_char :: "char \<Rightarrow> bool" where
  "is_local_char c = (is_alnum c \<or> c \<in> set ''._%+-'')"

definition is_domain_char :: "char \<Rightarrow> bool" where
  "is_domain_char c = (is_alnum c \<or> c \<in> set ''.-'')"

text \<open>
  \<^verbatim>\<open>[a-zA-Z0-9._%+-]+@[a-zA-Z0-9.-]+\.[a-zA-Z]{2,}\<close>, the pattern of both validators between
  its anchors \<^verbatim>\<open>^\<close> and \<^verbatim>\<open>$\<close>.
\<close>

definition EMAIL_RE :: rx where
  "EMAIL_RE =
     Seq (OneOrMore (Cls is_local_char))
       (Seq (Lit CHR ''@'')
         (Seq (OneOrMore (Cls is_domain_char))
           (Seq (Lit CHR ''.'') (TwoOrMore (Cls is_letter)))))"

text \<open>
  \<^verbatim>\<open>re.fullmatch\<close> of \<^verbatim>\<open>^R$\<close>: the match must span the whole string.
  \<^verbatim>\<open>re.match\<close> of \<^verbatim>\<open>^R$\<close>: the match starts at the beginning, and \<^verbatim>\<open>$\<close> (without
  \<^verbatim>\<open>re.MULTILINE\<close>) matches at the end of the string or just before a newline that is the
  last character of the string.
\<close>

definition re_fullmatch :: "rx \<Rightarrow> string \<Rightarrow> bool" where
  "re_fullmatch r s = matches r s"

definition re_match :: "rx \<Rightarrow> string \<Rightarrow> bool" where
  "re_match r s = (matches r s \<or> (s \<noteq> [] \<and> last s = CHR 0x0A \<and> matches r (butlast s)))"

subsection \<open>The validators\<close>

text \<open>\<^verbatim>\<open>validate_email\<close> of \<^verbatim>\<open>school.py\<close> returns True or raises \<^verbatim>\<open>ValueError\<close>.\<close>

definition validate_email :: "string \<Rightarrow> error + bool" where
  "validate_email email = (if re_match EMAIL_RE email then Inr True else Inl ValueError)"

text \<open>\<^verbatim>\<open>validate_age\<close> returns nothing, or raises \<^verbatim>\<open>ValueError\<close> when the age is negative.\<close>

definition validate_age :: "int \<Rightarrow> error + unit" where
  "validate_age age = (if age < 0 then Inl ValueError else Inr ())"

text \<open>
  \<^verbatim>\<open>str.strip()\<close> removes leading and trailing whitespace. Below 256 the whitespace code
  points are 9 to 13, 28 to 32, 133 and 160.
\<close>

definition is_space :: "char \<Rightarrow> bool" where
  "is_space c = (let n = (of_char c :: nat) in
     (9 \<le> n \<and> n \<le> 13) \<or> (28 \<le> n \<and> n \<le> 32) \<or> n = 133 \<or> n = 160)"

definition strip :: "string \<Rightarrow> string" where
  "strip s = rev (dropWhile is_space (rev (dropWhile is_space s)))"

text \<open>\<^verbatim>\<open>is_valid_email\<close> of \<^verbatim>\<open>app_tk_done.py\<close>:
  \<^verbatim>\<open>bool(EMAIL_RE.fullmatch((email or "").strip()))\<close>; on a string \<^verbatim>\<open>email or ""\<close> is the
  string itself.\<close>

definition is_valid_email :: "string \<Rightarrow> bool" where
  "is_valid_email email = re_fullmatch EMAIL_RE (strip email)"

text \<open>\<^verbatim>\<open>nonempty\<close> of \<^verbatim>\<open>app_tk_done.py\<close>.\<close>

definition nonempty :: "string list \<Rightarrow> bool" where
  "nonempty strings = list_all (\<lambda>s. strip s \<noteq> []) strings"

subsection \<open>The pattern in words\<close>

text \<open>
  The shape \<^verbatim>\<open>local@domain.tld\<close> as the specification words it: a non-empty local part of
  ASCII letters, digits and \<^verbatim>\<open>._%+-\<close>, an \<^verbatim>\<open>@\<close>, a non-empty domain of letters, digits,
  dots and hyphens, a dot, and a top-level label of at least two letters; nothing before and
  nothing after.
\<close>

definition email_shape :: "string \<Rightarrow> bool" where
  "email_shape s \<longleftrightarrow>
     (\<exists>l d t. s = l @ ''@'' @ d @ ''.'' @ t
        \<and> l \<noteq> [] \<and> (\<forall>c \<in> set l. is_local_char c)
        \<and> d \<noteq> [] \<and> (\<forall>c \<in> set d. is_domain_char c)
        \<and> 2 \<le> length t \<and> (\<forall>c \<in> set t. is_letter c))"

text \<open>The language of a regular expression, as sets of strings.\<close>

inductive_set star :: "string set \<Rightarrow> string set" for A :: "string set" where
  star_empty: "[] \<in> star A"
| star_step: "u \<in> A \<Longrightarrow> v \<in> star A \<Longrightarrow> u @ v \<in> star A"

fun lang :: "rx \<Rightarrow> string set" where
  "lang Void = {}"
| "lang Eps = {[]}"
| "lang (Cls p) = {[c] | c. p c}"
| "lang (Alt r s) = lang r \<union> lang s"
| "lang (Seq r s) = {u @ v | u v. u \<in> lang r \<and> v \<in> lang s}"
| "lang (Star r) = star (lang r)"

section \<open>Entity model (\<^verbatim>\<open>school.py\<close>)\<close>

text \<open>
  Exceptions are the left summand. \<open>bindE\<close> runs the next step unless one was raised and
  \<open>mapE\<close> is a list comprehension whose element expression may raise: the first failing
  element ends it.
\<close>

definition bindE :: "error + 'a \<Rightarrow> ('a \<Rightarrow> error + 'b) \<Rightarrow> error + 'b" where
  "bindE m f = (case m of Inl e \<Rightarrow> Inl e | Inr x \<Rightarrow> f x)"

fun mapE :: "('a \<Rightarrow> error + 'b) \<Rightarrow> 'a list \<Rightarrow> error + 'b list" where
  "mapE f [] = Inr []"
| "mapE f (x # xs) = bindE (f x) (\<lambda>y. bindE (mapE f xs) (\<lambda>ys. Inr (y # ys)))"

text \<open>
  The classes as records; \<open>Student\<close> and \<open>Instructor\<close> extend \<open>Person\<close> as the
  subclasses do. The attribute \<^verbatim>\<open>_email\<close> is the field \<open>email\<close>. Identifiers are strings
  (the Qt front end and \<^verbatim>\<open>school_sqlite.py\<close> use text identifiers).
\<close>

record Person =
  name :: string
  age :: int
  email :: string

record Student = Person +
  student_id :: string
  registered_courses :: "string list"

record Instructor = Person +
  instructor_id :: string
  assigned_courses :: "string list"

record Course =
  course_id :: string
  course_name :: string
  instructor :: "Instructor option"
  enrolled_students :: "Student list"

text \<open>\<^verbatim>\<open>Person.__init__\<close>: the email is validated first, then the age.\<close>

definition Person_init :: "string \<Rightarrow> int \<Rightarrow> string \<Rightarrow> error + Person" where
  "Person_init nm ag em =
     bindE (validate_email em) (\<lambda>_.
     bindE (validate_age ag) (\<lambda>_.
     Inr \<lparr>name = nm, age = ag, email = em\<rparr>))"

text \<open>\<^verbatim>\<open>Student.__init__\<close> and \<^verbatim>\<open>Instructor.__init__\<close>; the course list defaults to \<open>[]\<close>
  when it is None.\<close>

definition Student_init ::
  "string \<Rightarrow> int \<Rightarrow> string \<Rightarrow> string \<Rightarrow> string list option \<Rightarrow> error + Student" where
  "Student_init nm ag em sid rc =
     bindE (Person_init nm ag em) (\<lambda>p.
     Inr \<lparr>name = name p, age = age p, email = email p, student_id = sid,
          registered_courses = (case rc of None \<Rightarrow> [] | Some l \<Rightarrow> l)\<rparr>)"

definition Instructor_init ::
  "string \<Rightarrow> int \<Rightarrow> string \<Rightarrow> string \<Rightarrow> string list option \<Rightarrow> error + Instructor" where
  "Instructor_init nm ag em iid ac =
     bindE (Person_init nm ag em) (\<lambda>p.
     Inr \<lparr>name = name p, age = age p, email = email p, instructor_id = iid,
          assigned_courses = (case ac of None \<Rightarrow> [] | Some l \<Rightarrow> l)\<rparr>)"

text \<open>\<^verbatim>\<open>Course.__init__\<close> validates nothing.\<close>

definition Course_init ::
  "string \<Rightarrow> string \<Rightarrow> Instructor option \<Rightarrow> Student list option \<Rightarrow> Course" where
  "Course_init cid cname instr es =
     \<lparr>course_id = cid, course_name = cname, instructor = instr,
      enrolled_students = (case es of None \<Rightarrow> [] | Some l \<Rightarrow> l)\<rparr>"

subsection \<open>Records for serialisation\<close>

text \<open>
  The values \<^verbatim>\<open>save_to_dict\<close> produces and \<^verbatim>\<open>json.load\<close> returns: None, integers, strings,
  lists and dictionaries. A dictionary keeps insertion order, so it is an association list
  with distinct keys.
\<close>

datatype json = JNone | JInt int | JStr string | JList "json list" | JDict "(string \<times> json) list"

type_synonym dict = "(string \<times> json) list"

fun dict_set :: "dict \<Rightarrow> string \<Rightarrow> json \<Rightarrow> dict" where
  "dict_set [] k v = [(k, v)]"
| "dict_set ((k', v') # d) k v = (if k' = k then (k, v) # d else (k', v') # dict_set d k v)"

definition dict_update :: "dict \<Rightarrow> dict \<Rightarrow> dict" where
  "dict_update d other = fold (\<lambda>(k, v) acc. dict_set acc k v) other d"

text \<open>\<^verbatim>\<open>data[k]\<close> raises \<^verbatim>\<open>KeyError\<close> on a missing key; \<^verbatim>\<open>data.get(k, default)\<close> does not.\<close>

definition dict_getitem :: "dict \<Rightarrow> string \<Rightarrow> error + json" where
  "dict_getitem d k = (case map_of d k of None \<Rightarrow> Inl KeyError | Some v \<Rightarrow> Inr v)"

definition dict_get :: "dict \<Rightarrow> string \<Rightarrow> json \<Rightarrow> json" where
  "dict_get d k dflt = (case map_of d k of None \<Rightarrow> dflt | Some v \<Rightarrow> v)"

text \<open>Python truth of a value, as \<^verbatim>\<open>if data.get("instructor")\<close> tests it.\<close>

fun truthy :: "json \<Rightarrow> bool" where
  "truthy JNone = False"
| "truthy (JInt n) = (n \<noteq> 0)"
| "truthy (JStr s) = (s \<noteq> [])"
| "truthy (JList xs) = (xs \<noteq> [])"
| "truthy (JDict d) = (d \<noteq> [])"

text \<open>Iterating a value: a list gives its elements, a string its characters, a dictionary
  its keys; None and integers are not iterable.\<close>

fun py_iter :: "json \<Rightarrow> error + json list" where
  "py_iter (JList xs) = Inr xs"
| "py_iter (JStr s) = Inr (map (\<lambda>c. JStr [c]) s)"
| "py_iter (JDict d) = Inr (map (\<lambda>kv. JStr (fst kv)) d)"
| "py_iter JNone = Inl TypeError"
| "py_iter (JInt n) = Inl TypeError"

text \<open>
  The entity fields are typed here: names, emails and identifiers are strings, ages are
  integers, course lists are lists of strings. A value of another type is reported as
  \<open>TypeError\<close>. For the email and the age that is what \<^verbatim>\<open>re.match\<close> and \<^verbatim>\<open>age < 0\<close> raise;
  for the other fields it is the typing of the model, checked after every check of the
  source.
\<close>

fun as_str :: "json \<Rightarrow> error + string" where
  "as_str (JStr s) = Inr s"
| "as_str _ = Inl TypeError"

fun as_int :: "json \<Rightarrow> error + int" where
  "as_int (JInt n) = Inr n"
| "as_int _ = Inl TypeError"

fun as_str_list :: "json \<Rightarrow> error + string list option" where
  "as_str_list JNone = Inr None"
| "as_str_list (JList xs) = bindE (mapE as_str xs) (\<lambda>l. Inr (Some l))"
| "as_str_list _ = Inl TypeError"

fun as_dict :: "json \<Rightarrow> error + dict" where
  "as_dict (JDict d) = Inr d"
| "as_dict _ = Inl TypeError"

text \<open>\<^verbatim>\<open>Person.save_to_dict\<close>, inherited by both subclasses, and their extensions of it.\<close>

definition Person_save_to_dict :: "'a Person_scheme \<Rightarrow> dict" where
  "Person_save_to_dict p =
     [(''name'', JStr (name p)), (''age'', JInt (age p)), (''email'', JStr (email p))]"

definition Student_save_to_dict :: "Student \<Rightarrow> dict" where
  "Student_save_to_dict s =
     dict_update (Person_save_to_dict s)
       [(''student_id'', JStr (student_id s)),
        (''registered_courses'', JList (map JStr (registered_courses s)))]"

definition Instructor_save_to_dict :: "Instructor \<Rightarrow> dict" where
  "Instructor_save_to_dict i =
     dict_update (Person_save_to_dict i)
       [(''instructor_id'', JStr (instructor_id i)),
        (''assigned_courses'', JList (map JStr (assigned_courses i)))]"

definition Course_save_to_dict :: "Course \<Rightarrow> dict" where
  "Course_save_to_dict c =
     [(''course_id'', JStr (course_id c)),
      (''course_name'', JStr (course_name c)),
      (''instructor'',
         (case instructor c of None \<Rightarrow> JNone | Some i \<Rightarrow> JDict (Instructor_save_to_dict i))),
      (''enrolled_students'',
         JList (map (\<lambda>s. JDict (Student_save_to_dict s)) (enrolled_students c)))]"

text \<open>
  \<^verbatim>\<open>Student.from_dict\<close>: the five keys are read in the order of the call (a missing one
  raises \<^verbatim>\<open>KeyError\<close>), then the constructor validates the email and the age.
\<close>

definition Student_from_dict :: "dict \<Rightarrow> error + Student" where
  "Student_from_dict data =
     bindE (dict_getitem data ''name'') (\<lambda>jn.
     bindE (dict_getitem data ''age'') (\<lambda>ja.
     bindE (dict_getitem data ''email'') (\<lambda>je.
     bindE (dict_getitem data ''student_id'') (\<lambda>ji.
     bindE (dict_getitem data ''registered_courses'') (\<lambda>jc.
     bindE (as_str je) (\<lambda>em.
     bindE (validate_email em) (\<lambda>_.
     bindE (as_int ja) (\<lambda>ag.
     bindE (validate_age ag) (\<lambda>_.
     bindE (as_str jn) (\<lambda>nm.
     bindE (as_str ji) (\<lambda>sid.
     bindE (as_str_list jc) (\<lambda>rc.
     Student_init nm ag em sid rc))))))))))))"

definition Instructor_from_dict :: "dict \<Rightarrow> error + Instructor" where
  "Instructor_from_dict data =
     bindE (dict_getitem data ''name'') (\<lambda>jn.
     bindE (dict_getitem data ''age'') (\<lambda>ja.
     bindE (dict_getitem data ''email'') (\<lambda>je.
     bindE (dict_getitem data ''instructor_id'') (\<lambda>ji.
     bindE (dict_getitem data ''assigned_courses'') (\<lambda>jc.
     bindE (as_str je) (\<lambda>em.
     bindE (validate_email em) (\<lambda>_.
     bindE (as_int ja) (\<lambda>ag.
     bindE (validate_age ag) (\<lambda>_.
     bindE (as_str jn) (\<lambda>nm.
     bindE (as_str ji) (\<lambda>iid.
     bindE (as_str_list jc) (\<lambda>ac.
     Instructor_init nm ag em iid ac))))))))))))"

text \<open>
  \<^verbatim>\<open>Course.from_dict\<close>: the instructor is deserialised when \<^verbatim>\<open>data.get("instructor")\<close> is
  true, then each element of \<^verbatim>\<open>data.get("enrolled_students", [])\<close>, then the two required
  keys are read. Subscripting anything but a dictionary with a string raises
  \<^verbatim>\<open>TypeError\<close>.
\<close>

definition Course_from_dict :: "dict \<Rightarrow> error + Course" where
  "Course_from_dict data =
     bindE (if truthy (dict_get data ''instructor'' JNone)
            then bindE (dict_getitem data ''instructor'') (\<lambda>j.
                 bindE (as_dict j) (\<lambda>d.
                 bindE (Instructor_from_dict d) (\<lambda>i. Inr (Some i))))
            else Inr None) (\<lambda>instr.
     bindE (py_iter (dict_get data ''enrolled_students'' (JList []))) (\<lambda>js.
     bindE (mapE (\<lambda>j. bindE (as_dict j) Student_from_dict) js) (\<lambda>es.
     bindE (dict_getitem data ''course_id'') (\<lambda>jc.
     bindE (dict_getitem data ''course_name'') (\<lambda>jn.
     bindE (as_str jc) (\<lambda>cid.
     bindE (as_str jn) (\<lambda>cname.
     Inr (Course_init cid cname instr (Some es)))))))))"

text \<open>An entity as its constructor builds it: the email and the age passed validation.\<close>

definition Student_ok :: "Student \<Rightarrow> bool" where
  "Student_ok s \<longleftrightarrow>
     Student_init (name s) (age s) (email s) (student_id s) (Some (registered_courses s)) = Inr s"

definition Instructor_ok :: "Instructor \<Rightarrow> bool" where
  "Instructor_ok i \<longleftrightarrow>
     Instructor_init (name i) (age i) (email i) (instructor_id i) (Some (assigned_courses i)) = Inr i"

definition Course_ok :: "Course \<Rightarrow> bool" where
  "Course_ok c \<longleftrightarrow>
     (case instructor c of None \<Rightarrow> True | Some i \<Rightarrow> Instructor_ok i)
     \<and> list_all Student_ok (enrolled_students c)"

section \<open>Relational store\<close>

text \<open>
  Both adapters send SQL text to SQLite with \<^verbatim>\<open>PRAGMA foreign_keys = ON\<close>. A table is the
  list of its rows; each statement the adapters issue is a function on the tables that
  either returns the new tables or raises, following the constraints their \<^verbatim>\<open>SCHEMA\<close>
  declares. A statement that raises changes nothing (SQLite undoes the failing statement).
  Foreign keys are immediate: they are checked at the end of each statement.
  Without \<^verbatim>\<open>ORDER BY\<close> rows are read in stored order; \<^verbatim>\<open>ORDER BY\<close> is a sort on the key.
\<close>

record 'i person_row =
  row_id :: 'i
  row_name :: string
  row_age :: int
  row_email :: string

record 'i course_row =
  crow_id :: 'i
  crow_name :: string
  crow_instructor :: "'i option"

text \<open>A Python integer bound to a statement parameter must fit in 64 bits.\<close>

definition sqlite_int :: "int \<Rightarrow> bool" where
  "sqlite_int n \<longleftrightarrow> - (2 ^ 63) \<le> n \<and> n < 2 ^ 63"

section \<open>\<^verbatim>\<open>db_done.py\<close>: class \<^verbatim>\<open>DB\<close>\<close>

text \<open>
  Integer identifiers. \<^verbatim>\<open>_exec\<close> executes one statement and commits, so the state of a
  \<^verbatim>\<open>DB\<close> is the four tables, and a method either returns the new state or raises and
  leaves the state as it was.
\<close>

record DB =
  db_students :: "int person_row list"
  db_instructors :: "int person_row list"
  db_courses :: "int course_row list"
  db_enrollments :: "(int \<times> int) list"


text \<open>
  \<^verbatim>\<open>INSERT INTO t(id, name, age, email) VALUES(?,?,?,?) ON CONFLICT(id) DO UPDATE SET ...\<close>
  on a table whose \<^verbatim>\<open>email\<close> is \<^verbatim>\<open>UNIQUE\<close>: a row with that identifier is overwritten, otherwise
  the row is added; an email held by a row with another identifier makes the statement fail.
\<close>

definition upsert_person ::
  "int person_row list \<Rightarrow> int \<Rightarrow> string \<Rightarrow> int \<Rightarrow> string \<Rightarrow> error + int person_row list" where
  "upsert_person rows pid nm ag em =
     (let new = \<lparr>row_id = pid, row_name = nm, row_age = ag, row_email = em\<rparr> in
      if \<not> sqlite_int pid \<or> \<not> sqlite_int ag then Inl OverflowError
      else if list_ex (\<lambda>r. row_email r = em \<and> row_id r \<noteq> pid) rows then Inl IntegrityError
      else if list_ex (\<lambda>r. row_id r = pid) rows
        then Inr (map (\<lambda>r. if row_id r = pid then new else r) rows)
        else Inr (rows @ [new]))"

definition upsert_student :: "DB \<Rightarrow> int \<Rightarrow> string \<Rightarrow> int \<Rightarrow> string \<Rightarrow> error + DB" where
  "upsert_student db sid nm ag em =
     bindE (upsert_person (db_students db) sid nm ag em) (\<lambda>rows.
     Inr (db\<lparr>db_students := rows\<rparr>))"


text \<open>\<^verbatim>\<open>SELECT ... FROM students ORDER BY student_id\<close>, and the same for instructors.\<close>

definition list_students :: "DB \<Rightarrow> (int \<times> string \<times> int \<times> string) list" where
  "list_students db =
     map (\<lambda>r. (row_id r, row_name r, row_age r, row_email r)) (sort_key row_id (db_students db))"

definition list_instructors :: "DB \<Rightarrow> (int \<times> string \<times> int \<times> string) list" where
  "list_instructors db =
     map (\<lambda>r. (row_id r, row_name r, row_age r, row_email r)) (sort_key row_id (db_instructors db))"

text \<open>
  \<^verbatim>\<open>upsert_course\<close>: a non-null \<^verbatim>\<open>instructor_id\<close> must be the identifier of an instructor
  (foreign key).
\<close>

definition upsert_course :: "DB \<Rightarrow> int \<Rightarrow> string \<Rightarrow> int option \<Rightarrow> error + DB" where
  "upsert_course db cid cname iid =
     (let new = \<lparr>crow_id = cid, crow_name = cname, crow_instructor = iid\<rparr> in
      if \<not> sqlite_int cid \<or> (case iid of None \<Rightarrow> False | Some i \<Rightarrow> \<not> sqlite_int i)
        then Inl OverflowError
      else if (case iid of None \<Rightarrow> False
               | Some i \<Rightarrow> \<not> list_ex (\<lambda>r. row_id r = i) (db_instructors db))
        then Inl IntegrityError
      else if list_ex (\<lambda>r. crow_id r = cid) (db_courses db)
        then Inr (db\<lparr>db_courses := map (\<lambda>r. if crow_id r = cid then new else r) (db_courses db)\<rparr>)
        else Inr (db\<lparr>db_courses := db_courses db @ [new]\<rparr>))"

text \<open>\<^verbatim>\<open>UPDATE courses SET instructor_id=? WHERE course_id=?\<close>: without a matching course
  no row is touched and nothing is checked.\<close>

definition assign_instructor :: "DB \<Rightarrow> int \<Rightarrow> int \<Rightarrow> error + DB" where
  "assign_instructor db cid iid =
     (if \<not> sqlite_int iid \<or> \<not> sqlite_int cid then Inl OverflowError
      else if \<not> list_ex (\<lambda>r. crow_id r = cid) (db_courses db) then Inr db
      else if \<not> list_ex (\<lambda>r. row_id r = iid) (db_instructors db) then Inl IntegrityError
      else Inr (db\<lparr>db_courses :=
             map (\<lambda>r. if crow_id r = cid then r\<lparr>crow_instructor := Some iid\<rparr> else r)
               (db_courses db)\<rparr>))"

text \<open>
  \<^verbatim>\<open>list_courses\<close>: each course joined (\<^verbatim>\<open>LEFT JOIN\<close>) with the instructors whose identifier
  is its \<^verbatim>\<open>instructor_id\<close>; a course without one yields a row with nulls.
\<close>

definition list_courses :: "DB \<Rightarrow> (int \<times> string \<times> string option \<times> string option) list" where
  "list_courses db =
     concat (map (\<lambda>c.
       (case filter (\<lambda>i. Some (row_id i) = crow_instructor c) (db_instructors db) of
          [] \<Rightarrow> [(crow_id c, crow_name c, None, None)]
        | is \<Rightarrow> map (\<lambda>i. (crow_id c, crow_name c, Some (row_name i), Some (row_email i))) is))
       (sort_key crow_id (db_courses db)))"


text \<open>\<^verbatim>\<open>list_enrollments\<close>: enrollments of the course joined with their students, ordered by
  student identifier.\<close>

definition list_enrollments :: "DB \<Rightarrow> int \<Rightarrow> (int \<times> string \<times> string) list" where
  "list_enrollments db cid =
     map (\<lambda>s. (row_id s, row_name s, row_email s))
       (sort_key row_id
         (concat (map (\<lambda>e. filter (\<lambda>s. row_id s = fst e) (db_students db))
                    (filter (\<lambda>e. snd e = cid) (db_enrollments db)))))"

text \<open>
  What \<^verbatim>\<open>SCHEMA\<close> of \<^verbatim>\<open>db_done.py\<close> constrains: primary keys, unique emails, foreign keys,
  and integer columns that hold 64-bit values.
\<close>

definition wf_DB :: "DB \<Rightarrow> bool" where
  "wf_DB db \<longleftrightarrow>
     distinct (map row_id (db_students db)) \<and> distinct (map row_email (db_students db))
     \<and> distinct (map row_id (db_instructors db)) \<and> distinct (map row_email (db_instructors db))
     \<and> distinct (map crow_id (db_courses db))
     \<and> distinct (db_enrollments db)
     \<and> list_all (\<lambda>r. sqlite_int (row_id r) \<and> sqlite_int (row_age r)) (db_students db)
     \<and> list_all (\<lambda>r. sqlite_int (row_id r) \<and> sqlite_int (row_age r)) (db_instructors db)
     \<and> list_all (\<lambda>c. sqlite_int (crow_id c)
          \<and> set_option (crow_instructor c) \<subseteq> set (map row_id (db_instructors db)))
         (db_courses db)
     \<and> list_all (\<lambda>e. fst e \<in> set (map row_id (db_students db))
          \<and> snd e \<in> set (map crow_id (db_courses db))) (db_enrollments db)"

text \<open>Several \<^verbatim>\<open>upsert_student\<close> calls with one identifier, in order; each call gives the
  name, the age and the email.\<close>

fun upsert_student_all :: "DB \<Rightarrow> int \<Rightarrow> (string \<times> int \<times> string) list \<Rightarrow> error + DB" where
  "upsert_student_all db sid [] = Inr db"
| "upsert_student_all db sid ((nm, ag, em) # calls) =
     bindE (upsert_student db sid nm ag em) (\<lambda>db'. upsert_student_all db' sid calls)"

section \<open>\<^verbatim>\<open>school_sqlite.py\<close>: class \<^verbatim>\<open>SqliteSchoolDB\<close>\<close>

text \<open>
  Text identifiers, no \<^verbatim>\<open>UNIQUE\<close> on emails, and foreign keys that say \<^verbatim>\<open>ON DELETE\<close> only:
  a change of a referenced key is \<^verbatim>\<open>NO ACTION\<close>, that is, it fails while a row still
  refers to the old key.
\<close>

record store =
  tbl_students :: "string person_row list"
  tbl_instructors :: "string person_row list"
  tbl_courses :: "string course_row list"
  tbl_registrations :: "(string \<times> string) list"

text \<open>
  The connection. The \<^verbatim>\<open>sqlite3\<close> module opens a transaction before the first
  \<^verbatim>\<open>INSERT\<close>, \<^verbatim>\<open>UPDATE\<close> or \<^verbatim>\<open>DELETE\<close> and keeps it open until \<^verbatim>\<open>commit()\<close>:
  \<open>work\<close> is what the connection reads and writes, \<open>disk\<close> is what has been committed.
\<close>

record conn =
  disk :: store
  work :: store


definition commit :: "conn \<Rightarrow> conn" where
  "commit c = c\<lparr>disk := work c\<rparr>"

text \<open>
  Every method executes its statements in order and then commits. A statement that raises
  ends the method there: nothing is committed and nothing is rolled back, so the
  changes of the statements before it stay in the open transaction.
\<close>

fun run :: "(store \<Rightarrow> error + store) list \<Rightarrow> conn \<Rightarrow> error option \<times> conn" where
  "run [] c = (None, commit c)"
| "run (stmt # stmts) c =
     (case stmt (work c) of
        Inl e \<Rightarrow> (Some e, c)
      | Inr t \<Rightarrow> run stmts (c\<lparr>work := t\<rparr>))"

subsection \<open>The statements\<close>




text \<open>\<^verbatim>\<open>INSERT INTO courses(course_id,course_name,instructor_id) VALUES(?,?,?)\<close>.\<close>

definition sql_insert_course :: "string course_row \<Rightarrow> store \<Rightarrow> error + store" where
  "sql_insert_course r t =
     (if list_ex (\<lambda>x. crow_id x = crow_id r) (tbl_courses t) then Inl IntegrityError
      else if (case crow_instructor r of None \<Rightarrow> False
               | Some i \<Rightarrow> \<not> list_ex (\<lambda>x. row_id x = i) (tbl_instructors t))
        then Inl IntegrityError
      else Inr (t\<lparr>tbl_courses := tbl_courses t @ [r]\<rparr>))"

text \<open>\<^verbatim>\<open>UPDATE students SET name=? WHERE student_id=?\<close> and its siblings for the age and
  the email, on either table of persons.\<close>

definition set_name :: "string \<Rightarrow> string \<Rightarrow> string person_row list \<Rightarrow> string person_row list" where
  "set_name v pid rows = map (\<lambda>r. if row_id r = pid then r\<lparr>row_name := v\<rparr> else r) rows"

definition set_age :: "int \<Rightarrow> string \<Rightarrow> string person_row list \<Rightarrow> string person_row list" where
  "set_age v pid rows = map (\<lambda>r. if row_id r = pid then r\<lparr>row_age := v\<rparr> else r) rows"

definition set_email :: "string \<Rightarrow> string \<Rightarrow> string person_row list \<Rightarrow> string person_row list" where
  "set_email v pid rows = map (\<lambda>r. if row_id r = pid then r\<lparr>row_email := v\<rparr> else r) rows"

definition sql_update_student_name :: "string \<Rightarrow> string \<Rightarrow> store \<Rightarrow> error + store" where
  "sql_update_student_name v sid t = Inr (t\<lparr>tbl_students := set_name v sid (tbl_students t)\<rparr>)"

definition sql_update_student_age :: "int \<Rightarrow> string \<Rightarrow> store \<Rightarrow> error + store" where
  "sql_update_student_age v sid t =
     (if \<not> sqlite_int v then Inl OverflowError
      else Inr (t\<lparr>tbl_students := set_age v sid (tbl_students t)\<rparr>))"

definition sql_update_student_email :: "string \<Rightarrow> string \<Rightarrow> store \<Rightarrow> error + store" where
  "sql_update_student_email v sid t = Inr (t\<lparr>tbl_students := set_email v sid (tbl_students t)\<rparr>)"

definition sql_update_instructor_name :: "string \<Rightarrow> string \<Rightarrow> store \<Rightarrow> error + store" where
  "sql_update_instructor_name v iid t =
     Inr (t\<lparr>tbl_instructors := set_name v iid (tbl_instructors t)\<rparr>)"

definition sql_update_instructor_age :: "int \<Rightarrow> string \<Rightarrow> store \<Rightarrow> error + store" where
  "sql_update_instructor_age v iid t =
     (if \<not> sqlite_int v then Inl OverflowError
      else Inr (t\<lparr>tbl_instructors := set_age v iid (tbl_instructors t)\<rparr>))"

definition sql_update_instructor_email :: "string \<Rightarrow> string \<Rightarrow> store \<Rightarrow> error + store" where
  "sql_update_instructor_email v iid t =
     Inr (t\<lparr>tbl_instructors := set_email v iid (tbl_instructors t)\<rparr>)"

text \<open>
  \<^verbatim>\<open>UPDATE registrations SET student_id=? WHERE student_id=?\<close>. For the rows it changes, the
  new pair must not be in the table already (primary key) and the new identifier must be a
  student (foreign key).
\<close>

definition sql_update_registrations_student :: "string \<Rightarrow> string \<Rightarrow> store \<Rightarrow> error + store" where
  "sql_update_registrations_student new old t =
     (let regs = tbl_registrations t; hit = filter (\<lambda>e. fst e = old) regs in
      if hit = [] \<or> new = old then Inr t
      else if list_ex (\<lambda>e. (new, snd e) \<in> set regs) hit then Inl IntegrityError
      else if \<not> list_ex (\<lambda>r. row_id r = new) (tbl_students t) then Inl IntegrityError
      else Inr (t\<lparr>tbl_registrations := map (\<lambda>e. if fst e = old then (new, snd e) else e) regs\<rparr>))"

text \<open>\<^verbatim>\<open>UPDATE registrations SET course_id=? WHERE course_id=?\<close>, likewise.\<close>

definition sql_update_registrations_course :: "string \<Rightarrow> string \<Rightarrow> store \<Rightarrow> error + store" where
  "sql_update_registrations_course new old t =
     (let regs = tbl_registrations t; hit = filter (\<lambda>e. snd e = old) regs in
      if hit = [] \<or> new = old then Inr t
      else if list_ex (\<lambda>e. (fst e, new) \<in> set regs) hit then Inl IntegrityError
      else if \<not> list_ex (\<lambda>r. crow_id r = new) (tbl_courses t) then Inl IntegrityError
      else Inr (t\<lparr>tbl_registrations := map (\<lambda>e. if snd e = old then (fst e, new) else e) regs\<rparr>))"

text \<open>
  \<^verbatim>\<open>UPDATE students SET student_id=? WHERE student_id=?\<close>. The new identifier must be free
  (primary key) and no registration may still refer to the old one (foreign key, no
  \<^verbatim>\<open>ON UPDATE\<close> action).
\<close>

definition sql_update_student_id :: "string \<Rightarrow> string \<Rightarrow> store \<Rightarrow> error + store" where
  "sql_update_student_id new old t =
     (if \<not> list_ex (\<lambda>r. row_id r = old) (tbl_students t) \<or> new = old then Inr t
      else if list_ex (\<lambda>r. row_id r = new) (tbl_students t) then Inl IntegrityError
      else if list_ex (\<lambda>e. fst e = old) (tbl_registrations t) then Inl IntegrityError
      else Inr (t\<lparr>tbl_students :=
             map (\<lambda>r. if row_id r = old then r\<lparr>row_id := new\<rparr> else r) (tbl_students t)\<rparr>))"

text \<open>\<^verbatim>\<open>UPDATE courses SET instructor_id=? WHERE instructor_id=?\<close> and
  \<^verbatim>\<open>UPDATE instructors SET instructor_id=? WHERE instructor_id=?\<close>.\<close>

definition sql_update_courses_instructor :: "string \<Rightarrow> string \<Rightarrow> store \<Rightarrow> error + store" where
  "sql_update_courses_instructor new old t =
     (if \<not> list_ex (\<lambda>c. crow_instructor c = Some old) (tbl_courses t) \<or> new = old then Inr t
      else if \<not> list_ex (\<lambda>r. row_id r = new) (tbl_instructors t) then Inl IntegrityError
      else Inr (t\<lparr>tbl_courses :=
             map (\<lambda>c. if crow_instructor c = Some old then c\<lparr>crow_instructor := Some new\<rparr> else c)
               (tbl_courses t)\<rparr>))"

definition sql_update_instructor_id :: "string \<Rightarrow> string \<Rightarrow> store \<Rightarrow> error + store" where
  "sql_update_instructor_id new old t =
     (if \<not> list_ex (\<lambda>r. row_id r = old) (tbl_instructors t) \<or> new = old then Inr t
      else if list_ex (\<lambda>r. row_id r = new) (tbl_instructors t) then Inl IntegrityError
      else if list_ex (\<lambda>c. crow_instructor c = Some old) (tbl_courses t) then Inl IntegrityError
      else Inr (t\<lparr>tbl_instructors :=
             map (\<lambda>r. if row_id r = old then r\<lparr>row_id := new\<rparr> else r) (tbl_instructors t)\<rparr>))"

text \<open>\<^verbatim>\<open>UPDATE courses SET course_name=? WHERE course_id=?\<close>.\<close>

definition sql_update_course_name :: "string \<Rightarrow> string \<Rightarrow> store \<Rightarrow> error + store" where
  "sql_update_course_name v cid t =
     Inr (t\<lparr>tbl_courses := map (\<lambda>c. if crow_id c = cid then c\<lparr>crow_name := v\<rparr> else c)
            (tbl_courses t)\<rparr>)"

text \<open>\<^verbatim>\<open>UPDATE courses SET instructor_id=? WHERE course_id=?\<close>: a non-null value must be an
  instructor when a row is changed.\<close>

definition sql_update_course_instructor :: "string option \<Rightarrow> string \<Rightarrow> store \<Rightarrow> error + store" where
  "sql_update_course_instructor v cid t =
     (if \<not> list_ex (\<lambda>c. crow_id c = cid) (tbl_courses t) then Inr t
      else if (case v of None \<Rightarrow> False
               | Some i \<Rightarrow> \<not> list_ex (\<lambda>r. row_id r = i) (tbl_instructors t))
        then Inl IntegrityError
      else Inr (t\<lparr>tbl_courses :=
             map (\<lambda>c. if crow_id c = cid then c\<lparr>crow_instructor := v\<rparr> else c) (tbl_courses t)\<rparr>))"

text \<open>\<^verbatim>\<open>UPDATE courses SET course_id=? WHERE course_id=?\<close>.\<close>

definition sql_update_course_id :: "string \<Rightarrow> string \<Rightarrow> store \<Rightarrow> error + store" where
  "sql_update_course_id new old t =
     (if \<not> list_ex (\<lambda>c. crow_id c = old) (tbl_courses t) \<or> new = old then Inr t
      else if list_ex (\<lambda>c. crow_id c = new) (tbl_courses t) then Inl IntegrityError
      else if list_ex (\<lambda>e. snd e = old) (tbl_registrations t) then Inl IntegrityError
      else Inr (t\<lparr>tbl_courses :=
             map (\<lambda>c. if crow_id c = old then c\<lparr>crow_id := new\<rparr> else c) (tbl_courses t)\<rparr>))"

text \<open>
  \<^verbatim>\<open>DELETE FROM students WHERE student_id=?\<close>: the registrations of a deleted student go
  with it (\<^verbatim>\<open>ON DELETE CASCADE\<close>).
\<close>

definition sql_delete_student :: "string \<Rightarrow> store \<Rightarrow> error + store" where
  "sql_delete_student sid t =
     (if \<not> list_ex (\<lambda>r. row_id r = sid) (tbl_students t) then Inr t
      else Inr (t\<lparr>tbl_students := filter (\<lambda>r. row_id r \<noteq> sid) (tbl_students t),
                 tbl_registrations := filter (\<lambda>e. fst e \<noteq> sid) (tbl_registrations t)\<rparr>))"

text \<open>\<^verbatim>\<open>DELETE FROM instructors WHERE instructor_id=?\<close>: the courses of a deleted instructor
  get a null \<^verbatim>\<open>instructor_id\<close> (\<^verbatim>\<open>ON DELETE SET NULL\<close>).\<close>

definition sql_delete_instructor :: "string \<Rightarrow> store \<Rightarrow> error + store" where
  "sql_delete_instructor iid t =
     (if \<not> list_ex (\<lambda>r. row_id r = iid) (tbl_instructors t) then Inr t
      else Inr (t\<lparr>tbl_instructors := filter (\<lambda>r. row_id r \<noteq> iid) (tbl_instructors t),
                 tbl_courses :=
                   map (\<lambda>c. if crow_instructor c = Some iid then c\<lparr>crow_instructor := None\<rparr> else c)
                     (tbl_courses t)\<rparr>))"

text \<open>\<^verbatim>\<open>DELETE FROM courses WHERE course_id=?\<close>, with the cascade to registrations.\<close>

definition sql_delete_course :: "string \<Rightarrow> store \<Rightarrow> error + store" where
  "sql_delete_course cid t =
     (if \<not> list_ex (\<lambda>c. crow_id c = cid) (tbl_courses t) then Inr t
      else Inr (t\<lparr>tbl_courses := filter (\<lambda>c. crow_id c \<noteq> cid) (tbl_courses t),
                 tbl_registrations := filter (\<lambda>e. snd e \<noteq> cid) (tbl_registrations t)\<rparr>))"

text \<open>\<^verbatim>\<open>INSERT OR IGNORE INTO registrations(student_id, course_id) VALUES(?,?)\<close>.\<close>

definition sql_insert_or_ignore_registration :: "string \<Rightarrow> string \<Rightarrow> store \<Rightarrow> error + store" where
  "sql_insert_or_ignore_registration sid cid t =
     (if (sid, cid) \<in> set (tbl_registrations t) then Inr t
      else if \<not> list_ex (\<lambda>r. row_id r = sid) (tbl_students t)
              \<or> \<not> list_ex (\<lambda>c. crow_id c = cid) (tbl_courses t) then Inl IntegrityError
      else Inr (t\<lparr>tbl_registrations := tbl_registrations t @ [(sid, cid)]\<rparr>))"

subsection \<open>Create\<close>



definition add_course :: "conn \<Rightarrow> Course \<Rightarrow> error option \<times> conn" where
  "add_course c k =
     (let instr_id = (case instructor k of None \<Rightarrow> None | Some i \<Rightarrow> Some (instructor_id i)) in
      run [sql_insert_course
             \<lparr>crow_id = course_id k, crow_name = course_name k, crow_instructor = instr_id\<rparr>] c)"

subsection \<open>Read\<close>

text \<open>\<^verbatim>\<open>m.setdefault(k, []).append(v)\<close> and \<^verbatim>\<open>m.get(k, default)\<close> on a dictionary.\<close>

definition setdefault_append :: "('k \<rightharpoonup> 'v list) \<Rightarrow> 'k \<Rightarrow> 'v \<Rightarrow> ('k \<rightharpoonup> 'v list)" where
  "setdefault_append m k v = m(k \<mapsto> (case m k of None \<Rightarrow> [] | Some l \<Rightarrow> l) @ [v])"

definition get_or :: "('k \<rightharpoonup> 'v) \<Rightarrow> 'k \<Rightarrow> 'v \<Rightarrow> 'v" where
  "get_or m k dflt = (case m k of None \<Rightarrow> dflt | Some v \<Rightarrow> v)"

text \<open>
  The property \<^verbatim>\<open>students\<close>: the rows \<^verbatim>\<open>ORDER BY name\<close>, each hydrated through the
  constructor (which validates) with the courses its registrations name.
\<close>

definition students :: "conn \<Rightarrow> error + Student list" where
  "students c =
     (let rows = sort_key row_name (tbl_students (work c));
          reg_map = fold (\<lambda>e m. setdefault_append m (fst e) (snd e))
                      (tbl_registrations (work c)) Map.empty
      in mapE (\<lambda>r. Student_init (row_name r) (row_age r) (row_email r) (row_id r)
                     (Some (get_or reg_map (row_id r) []))) rows)"

text \<open>The property \<^verbatim>\<open>instructors\<close>; the assigned courses come from the rows of
  \<^verbatim>\<open>courses\<close> whose \<^verbatim>\<open>instructor_id\<close> is not null.\<close>

definition instructors :: "conn \<Rightarrow> error + Instructor list" where
  "instructors c =
     (let rows = sort_key row_name (tbl_instructors (work c));
          assigned = fold (\<lambda>k m. case crow_instructor k of None \<Rightarrow> m
                                   | Some i \<Rightarrow> setdefault_append m i (crow_id k))
                       (tbl_courses (work c)) Map.empty
      in mapE (\<lambda>r. Instructor_init (row_name r) (row_age r) (row_email r) (row_id r)
                     (Some (get_or assigned (row_id r) []))) rows)"

text \<open>
  The property \<^verbatim>\<open>courses\<close>: the rows \<^verbatim>\<open>ORDER BY course_name\<close>, each with its hydrated
  instructor (\<^verbatim>\<open>ins_map.get(iid)\<close>) and the hydrated students registered in it
  (\<^verbatim>\<open>[stu_map[sid] for sid in enrolled.get(cid, []) if sid in stu_map]\<close>).
\<close>

definition courses :: "conn \<Rightarrow> error + Course list" where
  "courses c =
     bindE (instructors c) (\<lambda>ins.
       let ins_map = fold (\<lambda>i m. m(instructor_id i \<mapsto> i)) ins Map.empty;
           rows = sort_key crow_name (tbl_courses (work c));
           enrolled = fold (\<lambda>e m. setdefault_append m (snd e) (fst e))
                        (tbl_registrations (work c)) Map.empty
       in bindE (students c) (\<lambda>stus.
            let stu_map = fold (\<lambda>s m. m(student_id s \<mapsto> s)) stus Map.empty in
            Inr (map (\<lambda>r.
                   Course_init (crow_id r) (crow_name r)
                     (case crow_instructor r of None \<Rightarrow> None | Some i \<Rightarrow> ins_map i)
                     (Some (concat (map (\<lambda>sid. case stu_map sid of None \<Rightarrow> [] | Some s \<Rightarrow> [s])
                                      (get_or enrolled (crow_id r) [])))))
                 rows)))"

subsection \<open>Update\<close>

text \<open>
  \<^verbatim>\<open>update_student(student_id, *, name=None, age=None, email=None, new_id=None)\<close>: one
  statement for each argument that is not None, the identifier last, registrations before
  the student row.
\<close>

definition update_student ::
  "conn \<Rightarrow> string \<Rightarrow> string option \<Rightarrow> int option \<Rightarrow> string option \<Rightarrow> string option
     \<Rightarrow> error option \<times> conn" where
  "update_student c sid nm ag em new_id =
     run ((case nm of None \<Rightarrow> [] | Some v \<Rightarrow> [sql_update_student_name v sid])
        @ (case ag of None \<Rightarrow> [] | Some v \<Rightarrow> [sql_update_student_age v sid])
        @ (case em of None \<Rightarrow> [] | Some v \<Rightarrow> [sql_update_student_email v sid])
        @ (case new_id of None \<Rightarrow> []
           | Some n \<Rightarrow> if n \<noteq> sid
                then [sql_update_registrations_student n sid, sql_update_student_id n sid]
                else [])) c"

definition update_instructor ::
  "conn \<Rightarrow> string \<Rightarrow> string option \<Rightarrow> int option \<Rightarrow> string option \<Rightarrow> string option
     \<Rightarrow> error option \<times> conn" where
  "update_instructor c iid nm ag em new_id =
     run ((case nm of None \<Rightarrow> [] | Some v \<Rightarrow> [sql_update_instructor_name v iid])
        @ (case ag of None \<Rightarrow> [] | Some v \<Rightarrow> [sql_update_instructor_age v iid])
        @ (case em of None \<Rightarrow> [] | Some v \<Rightarrow> [sql_update_instructor_email v iid])
        @ (case new_id of None \<Rightarrow> []
           | Some n \<Rightarrow> if n \<noteq> iid
                then [sql_update_courses_instructor n iid, sql_update_instructor_id n iid]
                else [])) c"

text \<open>
  \<^verbatim>\<open>update_course(course_id, *, name=None, instructor_id=None, new_id=None)\<close>. The
  instructor is written only when \<^verbatim>\<open>instructor_id is not None\<close>.
\<close>

definition update_course ::
  "conn \<Rightarrow> string \<Rightarrow> string option \<Rightarrow> string option \<Rightarrow> string option \<Rightarrow> error option \<times> conn" where
  "update_course c cid nm iid new_id =
     run ((case nm of None \<Rightarrow> [] | Some v \<Rightarrow> [sql_update_course_name v cid])
        @ (case iid of None \<Rightarrow> [] | Some i \<Rightarrow> [sql_update_course_instructor (Some i) cid])
        @ (case new_id of None \<Rightarrow> []
           | Some n \<Rightarrow> if n \<noteq> cid
                then [sql_update_registrations_course n cid, sql_update_course_id n cid]
                else [])) c"

subsection \<open>Delete\<close>

definition delete_student :: "conn \<Rightarrow> string \<Rightarrow> error option \<times> conn" where
  "delete_student c sid = run [sql_delete_student sid] c"

definition delete_instructor :: "conn \<Rightarrow> string \<Rightarrow> error option \<times> conn" where
  "delete_instructor c iid = run [sql_delete_instructor iid] c"

definition delete_course :: "conn \<Rightarrow> string \<Rightarrow> error option \<times> conn" where
  "delete_course c cid = run [sql_delete_course cid] c"

subsection \<open>Enrollment and assignment\<close>

definition register_student_in_course :: "conn \<Rightarrow> string \<Rightarrow> string \<Rightarrow> error option \<times> conn" where
  "register_student_in_course c sid cid = run [sql_insert_or_ignore_registration sid cid] c"

definition assign_instructor_to_course ::
  "conn \<Rightarrow> string option \<Rightarrow> string \<Rightarrow> error option \<times> conn" where
  "assign_instructor_to_course c iid cid = run [sql_update_course_instructor iid cid] c"


section \<open>Stored ages and sample states\<close>


text \<open>Sample entities and states on which the theorems below are run.\<close>

definition ann :: Student where
  "ann = \<lparr>name = ''Ann'', age = 20, email = ''ann@x.com'', student_id = ''s2'',
          registered_courses = []\<rparr>"

definition zed :: Student where
  "zed = \<lparr>name = ''Zed'', age = 21, email = ''zed@x.com'', student_id = ''s1'',
          registered_courses = [''c1'']\<rparr>"

definition ivy :: Instructor where
  "ivy = \<lparr>name = ''Ivy'', age = 40, email = ''ivy@x.com'', instructor_id = ''i1'',
          assigned_courses = [''c1'']\<rparr>"

definition cs101 :: Course where
  "cs101 = \<lparr>course_id = ''c1'', course_name = ''CS101'', instructor = Some ivy,
            enrolled_students = [zed]\<rparr>"

definition sample_store :: store where
  "sample_store =
     \<lparr>tbl_students =
        [\<lparr>row_id = ''s1'', row_name = ''Zed'', row_age = 21, row_email = ''zed@x.com''\<rparr>,
         \<lparr>row_id = ''s2'', row_name = ''Ann'', row_age = 20, row_email = ''ann@x.com''\<rparr>],
      tbl_instructors =
        [\<lparr>row_id = ''i1'', row_name = ''Ivy'', row_age = 40, row_email = ''ivy@x.com''\<rparr>],
      tbl_courses = [\<lparr>crow_id = ''c1'', crow_name = ''CS101'', crow_instructor = Some ''i1''\<rparr>],
      tbl_registrations = [(''s1'', ''c1'')]\<rparr>"

definition sample_conn :: conn where
  "sample_conn = \<lparr>disk = sample_store, work = sample_store\<rparr>"

definition sample_DB :: DB where
  "sample_DB =
     \<lparr>db_students =
        [\<lparr>row_id = 2, row_name = ''Bob'', row_age = 22, row_email = ''bob@x.com''\<rparr>,
         \<lparr>row_id = 1, row_name = ''Ann'', row_age = 20, row_email = ''ann@x.com''\<rparr>],
      db_instructors =
        [\<lparr>row_id = 5, row_name = ''Ivy'', row_age = 40, row_email = ''ivy@x.com''\<rparr>],
      db_courses = [\<lparr>crow_id = 10, crow_name = ''CS101'', crow_instructor = Some 5\<rparr>],
      db_enrollments = [(2, 10)]\<rparr>"

section \<open>Properties\<close>

subsection \<open>Sequencing\<close>

lemma bindE_simps [simp]: "bindE (Inl e) f = Inl e" "bindE (Inr x) f = f x"
  by (simp_all add: bindE_def)

lemma bindE_eq_Inr: "bindE m f = Inr y \<longleftrightarrow> (\<exists>x. m = Inr x \<and> f x = Inr y)"
  by (cases m) simp_all


subsection \<open>The validators and the pattern\<close>

lemma nullable_lang: "nullable r \<longleftrightarrow> [] \<in> lang r"
  by (induction r) (auto intro: star.star_empty)

lemma star_cons_split:
  assumes "x \<in> star A" and "x = c # w"
  shows "\<exists>u v. w = u @ v \<and> c # u \<in> A \<and> v \<in> star A"
  using assms
proof (induction arbitrary: w rule: star.induct)
  case star_empty
  then show ?case by simp
next
  case (star_step u v)
  show ?case
  proof (cases u)
    case Nil
    with star_step show ?thesis by simp
  next
    case (Cons a u')
    with star_step.prems have "a = c" and "w = u' @ v" by simp_all
    with Cons star_step.hyps show ?thesis by blast
  qed
qed

lemma star_cons: "c # w \<in> star A \<longleftrightarrow> (\<exists>u v. w = u @ v \<and> c # u \<in> A \<and> v \<in> star A)"
proof
  assume "c # w \<in> star A"
  then show "\<exists>u v. w = u @ v \<and> c # u \<in> A \<and> v \<in> star A"
    by (rule star_cons_split) simp
next
  assume "\<exists>u v. w = u @ v \<and> c # u \<in> A \<and> v \<in> star A"
  then obtain u v where "w = u @ v" "c # u \<in> A" "v \<in> star A" by blast
  then show "c # w \<in> star A"
    using star.star_step [of "c # u" A v] by simp
qed

lemma deriv_lang: "w \<in> lang (deriv c r) \<longleftrightarrow> c # w \<in> lang r"
proof (induction r arbitrary: w)
  case (Seq r s)
  then show ?case
    by (auto simp: nullable_lang Cons_eq_append_conv)
next
  case (Star r)
  then show ?case
    by (auto simp: star_cons)
qed auto

lemma matches_lang: "matches r s \<longleftrightarrow> s \<in> lang r"
  by (induction s arbitrary: r) (simp_all add: nullable_lang deriv_lang)

lemma star_Cls: "star {[c] | c. p c} = {w. \<forall>c \<in> set w. p c}"
proof (rule set_eqI, rule iffI)
  fix w assume "w \<in> star {[c] | c. p c}"
  then show "w \<in> {w. \<forall>c \<in> set w. p c}"
    by (induction rule: star.induct) auto
next
  fix w assume "w \<in> {w. \<forall>c \<in> set w. p c}"
  then have "\<forall>c \<in> set w. p c" by simp
  then show "w \<in> star {[c] | c. p c}"
  proof (induction w)
    case Nil
    show ?case by (rule star.star_empty)
  next
    case (Cons a w)
    then have "[a] \<in> {[c] | c. p c}" and "w \<in> star {[c] | c. p c}" by auto
    then show ?case using star.star_step [of "[a]" _ w] by simp
  qed
qed

lemma lang_OneOrMore_Cls: "lang (OneOrMore (Cls p)) = {w. w \<noteq> [] \<and> (\<forall>c \<in> set w. p c)}"
proof (rule set_eqI, rule iffI)
  fix w assume "w \<in> lang (OneOrMore (Cls p))"
  then show "w \<in> {w. w \<noteq> [] \<and> (\<forall>c \<in> set w. p c)}"
    by (auto simp: OneOrMore_def star_Cls)
next
  fix w assume "w \<in> {w. w \<noteq> [] \<and> (\<forall>c \<in> set w. p c)}"
  then obtain a v where "w = a # v" "p a" "\<forall>x \<in> set v. p x"
    by (cases w) auto
  then have "w = [a] @ v" "[a] \<in> lang (Cls p)" "v \<in> lang (Star (Cls p))"
    by (auto simp: star_Cls)
  then show "w \<in> lang (OneOrMore (Cls p))"
    unfolding OneOrMore_def lang.simps by blast
qed

lemma lang_TwoOrMore_Cls: "lang (TwoOrMore (Cls p)) = {w. 2 \<le> length w \<and> (\<forall>c \<in> set w. p c)}"
proof (rule set_eqI, rule iffI)
  fix w assume "w \<in> lang (TwoOrMore (Cls p))"
  then show "w \<in> {w. 2 \<le> length w \<and> (\<forall>c \<in> set w. p c)}"
    by (auto simp: TwoOrMore_def star_Cls)
next
  fix w assume "w \<in> {w. 2 \<le> length w \<and> (\<forall>c \<in> set w. p c)}"
  then obtain a b v where "w = a # b # v" "p a" "p b" "\<forall>x \<in> set v. p x"
    by (cases w; cases "tl w") auto
  then have "w = [a] @ [b] @ v" "[a] \<in> lang (Cls p)" "[b] \<in> lang (Cls p)" "v \<in> lang (Star (Cls p))"
    by (auto simp: star_Cls)
  then show "w \<in> lang (TwoOrMore (Cls p))"
    unfolding TwoOrMore_def lang.simps by blast
qed

lemma lang_Lit: "lang (Lit c) = {[c]}"
  by (auto simp: Lit_def)

lemma lang_EMAIL_RE: "s \<in> lang EMAIL_RE \<longleftrightarrow> email_shape s"
  unfolding EMAIL_RE_def email_shape_def lang.simps(5) lang_OneOrMore_Cls lang_TwoOrMore_Cls lang_Lit
  by (simp; blast)

lemma matches_EMAIL_RE: "matches EMAIL_RE s \<longleftrightarrow> email_shape s"
  by (simp add: matches_lang lang_EMAIL_RE)

lemma letter_not_space: "is_letter c \<Longrightarrow> \<not> is_space c"
  by (auto simp: is_letter_def is_space_def Let_def)

lemma local_not_space: "is_local_char c \<Longrightarrow> \<not> is_space c"
  by (auto simp: is_local_char_def is_alnum_def is_letter_def is_space_def Let_def)

lemma strip_id: "s \<noteq> [] \<Longrightarrow> \<not> is_space (hd s) \<Longrightarrow> \<not> is_space (last s) \<Longrightarrow> strip s = s"
proof -
  assume a: "s \<noteq> []" "\<not> is_space (hd s)" "\<not> is_space (last s)"
  then have "dropWhile is_space s = s" by (cases s) simp_all
  moreover from a have "dropWhile is_space (rev s) = rev s"
    by (cases "rev s") (simp_all add: last_rev [symmetric] hd_rev)
  ultimately show ?thesis by (simp add: strip_def)
qed

lemma email_shape_ends:
  assumes "email_shape s"
  shows "s \<noteq> [] \<and> is_local_char (hd s) \<and> is_letter (last s)"
proof -
  from assms obtain l d t where s: "s = l @ ''@'' @ d @ ''.'' @ t"
    and l: "l \<noteq> []" "\<forall>c \<in> set l. is_local_char c"
    and t: "2 \<le> length t" "\<forall>c \<in> set t. is_letter c"
    unfolding email_shape_def by blast
  from l have "hd s = hd l" "is_local_char (hd l)" by (simp_all add: s)
  moreover from t have "t \<noteq> []" by auto
  then have "last s = last t" "is_letter (last t)" using t by (simp_all add: s)
  ultimately show ?thesis using l by (simp add: s)
qed

lemma email_shape_strip: "email_shape s \<Longrightarrow> strip s = s"
proof -
  assume "email_shape s"
  then have "s \<noteq> []" "is_local_char (hd s)" "is_letter (last s)"
    using email_shape_ends [of s] by simp_all
  then show ?thesis
    by (intro strip_id local_not_space letter_not_space)
qed

lemma email_shape_no_newline: "email_shape s \<Longrightarrow> last s \<noteq> CHR 0x0A"
proof
  assume "email_shape s" "last s = CHR 0x0A"
  then have "is_letter (CHR 0x0A)" using email_shape_ends [of s] by auto
  then show False by (simp add: is_letter_def)
qed

lemma validate_email_iff:
  "validate_email s = Inr True \<longleftrightarrow>
     email_shape s \<or> (s \<noteq> [] \<and> last s = CHR 0x0A \<and> email_shape (butlast s))"
  by (simp add: validate_email_def re_match_def matches_EMAIL_RE)

lemma validate_email_cases: "validate_email s = Inr True \<or> validate_email s = Inl ValueError"
  by (simp add: validate_email_def)

text \<open>
  C7 (as amended). \<^verbatim>\<open>is_valid_email\<close> accepts a string exactly when the string, stripped of
  leading and trailing whitespace, has the shape \<^verbatim>\<open>local@domain.tld\<close> from its first character
  to its last. \<^verbatim>\<open>validate_email\<close> returns True or raises \<^verbatim>\<open>ValueError\<close>; on a string that
  does not end in a newline it returns True exactly when the whole string has that shape.
  Both accept every string that has the shape.
\<close>

theorem validators_accept_pattern:
  "(is_valid_email s \<longleftrightarrow> email_shape (strip s))
   \<and> (s = [] \<or> last s \<noteq> CHR 0x0A \<longrightarrow> (validate_email s = Inr True \<longleftrightarrow> email_shape s))
   \<and> (email_shape s \<longrightarrow> is_valid_email s \<and> validate_email s = Inr True)
   \<and> (validate_email s = Inr True \<or> validate_email s = Inl ValueError)"
proof -
  have 1: "is_valid_email s \<longleftrightarrow> email_shape (strip s)"
    by (simp add: is_valid_email_def re_fullmatch_def matches_EMAIL_RE)
  have 2: "s = [] \<or> last s \<noteq> CHR 0x0A \<longrightarrow> (validate_email s = Inr True \<longleftrightarrow> email_shape s)"
    by (auto simp: validate_email_iff)
  have 3: "email_shape s \<longrightarrow> is_valid_email s \<and> validate_email s = Inr True"
    by (simp add: 1 email_shape_strip validate_email_iff)
  from 1 2 3 validate_email_cases [of s] show ?thesis by blast
qed

theorem validators_accept_pattern_witness:
  "is_valid_email ''ann@x.com'' \<and> validate_email ''ann@x.com'' = Inr True
   \<and> email_shape ''ann@x.com'' \<and> \<not> is_valid_email ''ann@x'' \<and> validate_email ''ann@x'' = Inl ValueError"
proof -
  have a: "is_valid_email ''ann@x.com''" by code_simp
  have b: "strip ''ann@x.com'' = ''ann@x.com''" by code_simp
  have c: "\<not> is_valid_email ''ann@x''" by code_simp
  have d: "validate_email ''ann@x'' = Inl ValueError" by code_simp
  from a b c d validators_accept_pattern [of "''ann@x.com''"] show ?thesis by simp
qed

text \<open>C7 as stated fails: \<^verbatim>\<open>is_valid_email\<close> accepts a string with a leading and a
  trailing space, which does not have the shape.\<close>

theorem strip_tolerated_counterexample:
  "is_valid_email '' ann@x.com '' \<and> \<not> email_shape '' ann@x.com ''"
proof -
  have "is_valid_email '' ann@x.com ''" by code_simp
  moreover have "\<not> matches EMAIL_RE '' ann@x.com ''" by code_simp
  ultimately show ?thesis using matches_EMAIL_RE by blast
qed

text \<open>\<^verbatim>\<open>re.match\<close> with \<^verbatim>\<open>$\<close> lets one trailing newline through.\<close>

lemma validate_email_trailing_newline:
  "validate_email (''ann@x.com'' @ [CHR 0x0A]) = Inr True \<and> \<not> email_shape (''ann@x.com'' @ [CHR 0x0A])"
proof -
  have "validate_email (''ann@x.com'' @ [CHR 0x0A]) = Inr True" by code_simp
  moreover have "\<not> matches EMAIL_RE (''ann@x.com'' @ [CHR 0x0A])" by code_simp
  ultimately show ?thesis using matches_EMAIL_RE by blast
qed

subsection \<open>Serialisation round trip\<close>

lemma mapE_as_str: "mapE as_str (map JStr xs) = Inr xs"
  by (induction xs) simp_all

lemma mapE_Inr: "mapE f xs = Inr ys \<Longrightarrow> list_all2 (\<lambda>x y. f x = Inr y) xs ys"
  by (induction xs arbitrary: ys) (auto simp: bindE_eq_Inr)

lemma mapE_all: "(\<And>x. x \<in> set xs \<Longrightarrow> f (g x) = Inr x) \<Longrightarrow> mapE f (map g xs) = Inr xs"
  by (induction xs) simp_all

lemma Person_init_Inr:
  "Person_init nm ag em = Inr p \<longleftrightarrow>
     validate_email em = Inr True \<and> 0 \<le> ag \<and> p = \<lparr>name = nm, age = ag, email = em\<rparr>"
  using validate_email_cases [of em]
  by (auto simp: Person_init_def validate_age_def)

lemma Student_init_Inr:
  "Student_init nm ag em sid rc = Inr s \<longleftrightarrow>
     validate_email em = Inr True \<and> 0 \<le> ag \<and>
     s = \<lparr>name = nm, age = ag, email = em, student_id = sid,
          registered_courses = (case rc of None \<Rightarrow> [] | Some l \<Rightarrow> l)\<rparr>"
  by (auto simp: Student_init_def bindE_eq_Inr Person_init_Inr)

lemma Instructor_init_Inr:
  "Instructor_init nm ag em iid ac = Inr i \<longleftrightarrow>
     validate_email em = Inr True \<and> 0 \<le> ag \<and>
     i = \<lparr>name = nm, age = ag, email = em, instructor_id = iid,
          assigned_courses = (case ac of None \<Rightarrow> [] | Some l \<Rightarrow> l)\<rparr>"
  by (auto simp: Instructor_init_def bindE_eq_Inr Person_init_Inr)

lemma Student_ok_iff: "Student_ok s \<longleftrightarrow> validate_email (email s) = Inr True \<and> 0 \<le> age s"
  by (auto simp: Student_ok_def Student_init_Inr)

lemma Instructor_ok_iff: "Instructor_ok i \<longleftrightarrow> validate_email (email i) = Inr True \<and> 0 \<le> age i"
  by (auto simp: Instructor_ok_def Instructor_init_Inr)

lemma Student_init_ok: "Student_init nm ag em sid rc = Inr s \<Longrightarrow> Student_ok s"
  by (auto simp: Student_ok_iff Student_init_Inr)

lemma Instructor_init_ok: "Instructor_init nm ag em iid ac = Inr i \<Longrightarrow> Instructor_ok i"
  by (auto simp: Instructor_ok_iff Instructor_init_Inr)

lemma Student_roundtrip:
  assumes "Student_ok s"
  shows "Student_from_dict (Student_save_to_dict s) = Inr s"
proof -
  from assms have v: "validate_email (email s) = Inr True" "validate_age (age s) = Inr ()"
    by (simp_all add: Student_ok_iff validate_age_def)
  show ?thesis
    by (simp add: Student_from_dict_def Student_save_to_dict_def Person_save_to_dict_def
        dict_update_def dict_getitem_def v mapE_as_str Student_init_def Person_init_def)
qed

lemma Instructor_roundtrip:
  assumes "Instructor_ok i"
  shows "Instructor_from_dict (Instructor_save_to_dict i) = Inr i"
proof -
  from assms have v: "validate_email (email i) = Inr True" "validate_age (age i) = Inr ()"
    by (simp_all add: Instructor_ok_iff validate_age_def)
  show ?thesis
    by (simp add: Instructor_from_dict_def Instructor_save_to_dict_def Person_save_to_dict_def
        dict_update_def dict_getitem_def v mapE_as_str Instructor_init_def Person_init_def)
qed

lemma Instructor_save_nonempty: "Instructor_save_to_dict i \<noteq> []"
  by (simp add: Instructor_save_to_dict_def Person_save_to_dict_def dict_update_def)

lemma Course_roundtrip:
  assumes "Course_ok c"
  shows "Course_from_dict (Course_save_to_dict c) = Inr c"
proof -
  from assms have st: "\<And>s. s \<in> set (enrolled_students c) \<Longrightarrow> Student_ok s"
    by (simp add: Course_ok_def list_all_iff)
  have es: "mapE (\<lambda>j. bindE (as_dict j) Student_from_dict)
              (map (\<lambda>s. JDict (Student_save_to_dict s)) (enrolled_students c))
            = Inr (enrolled_students c)"
    by (rule mapE_all) (simp add: Student_roundtrip st)
  show ?thesis
  proof (cases "instructor c")
    case None
    then show ?thesis
      by (simp add: Course_from_dict_def Course_save_to_dict_def dict_get_def dict_getitem_def
          es Course_init_def)
  next
    case (Some i)
    with assms have "Instructor_ok i" by (simp add: Course_ok_def)
    then have "Instructor_from_dict (Instructor_save_to_dict i) = Inr i"
      by (rule Instructor_roundtrip)
    with Some show ?thesis
      by (simp add: Course_from_dict_def Course_save_to_dict_def dict_get_def dict_getitem_def
          es Course_init_def Instructor_save_nonempty)
  qed
qed

text \<open>
  C4. For every Student, Instructor and Course as the constructors build them (for a Course:
  with its nested instructor and its nested enrolled students so built),
  \<^verbatim>\<open>from_dict(save_to_dict(x))\<close> returns an entity with the same field values as \<open>x\<close>.
\<close>

theorem from_dict_save_to_dict:
  "(Student_ok s \<longrightarrow> Student_from_dict (Student_save_to_dict s) = Inr s)
   \<and> (Instructor_ok i \<longrightarrow> Instructor_from_dict (Instructor_save_to_dict i) = Inr i)
   \<and> (Course_ok c \<longrightarrow> Course_from_dict (Course_save_to_dict c) = Inr c)"
  by (simp add: Student_roundtrip Instructor_roundtrip Course_roundtrip)

theorem from_dict_save_to_dict_witness:
  "Student_from_dict (Student_save_to_dict zed) = Inr zed
   \<and> Instructor_from_dict (Instructor_save_to_dict ivy) = Inr ivy
   \<and> Course_from_dict (Course_save_to_dict cs101) = Inr cs101"
proof -
  have "Student_ok zed" by code_simp
  moreover have "Instructor_ok ivy" by code_simp
  moreover have "Course_ok cs101" by code_simp
  ultimately show ?thesis using from_dict_save_to_dict [of zed ivy cs101] by blast
qed

subsection \<open>Upsert on a table of persons\<close>

lemma list_ex_id: "list_ex (\<lambda>r. f r = k) rows \<longleftrightarrow> k \<in> set (map f rows)"
  by (auto simp: list_ex_iff)


lemma upsert_person_Inr:
  assumes "sqlite_int pid" "sqlite_int ag"
    and "\<not> list_ex (\<lambda>r. row_email r = em \<and> row_id r \<noteq> pid) rows"
  shows "upsert_person rows pid nm ag em =
     Inr (if pid \<in> set (map row_id rows)
          then map (\<lambda>r. if row_id r = pid
                 then \<lparr>row_id = pid, row_name = nm, row_age = ag, row_email = em\<rparr> else r) rows
          else rows @ [\<lparr>row_id = pid, row_name = nm, row_age = ag, row_email = em\<rparr>])"
  using assms by (simp add: upsert_person_def Let_def list_ex_id)

lemma upsert_person_collision:
  assumes "sqlite_int pid" "sqlite_int ag"
    and "list_ex (\<lambda>r. row_email r = em \<and> row_id r \<noteq> pid) rows"
  shows "upsert_person rows pid nm ag em = Inl IntegrityError"
  using assms by (simp add: upsert_person_def Let_def)

lemma upsert_person_result:
  assumes "upsert_person rows pid nm ag em = Inr rows'"
  shows "sqlite_int pid \<and> sqlite_int ag
     \<and> (\<forall>r \<in> set rows. row_email r = em \<longrightarrow> row_id r = pid)
     \<and> rows' = (if pid \<in> set (map row_id rows)
          then map (\<lambda>r. if row_id r = pid
                 then \<lparr>row_id = pid, row_name = nm, row_age = ag, row_email = em\<rparr> else r) rows
          else rows @ [\<lparr>row_id = pid, row_name = nm, row_age = ag, row_email = em\<rparr>])"
proof -
  from assms have a: "sqlite_int pid" "sqlite_int ag"
    "\<not> list_ex (\<lambda>r. row_email r = em \<and> row_id r \<noteq> pid) rows"
    by (auto simp: upsert_person_def Let_def split: if_splits)
  from a(3) have "\<forall>r \<in> set rows. row_email r = em \<longrightarrow> row_id r = pid"
    by (auto simp: list_ex_iff)
  with a assms upsert_person_Inr [OF a, of nm] show ?thesis by simp
qed

lemma key_split:
  assumes "distinct (map f rows)" "k \<in> set (map f rows)"
  shows "\<exists>xs r0 ys. rows = xs @ r0 # ys \<and> f r0 = k
           \<and> k \<notin> set (map f xs) \<and> k \<notin> set (map f ys)"
proof -
  from assms(2) obtain r0 where "r0 \<in> set rows" "f r0 = k" by auto
  then obtain xs ys where r: "rows = xs @ r0 # ys" by (auto simp: in_set_conv_decomp)
  with assms(1) \<open>f r0 = k\<close> have "k \<notin> set (map f xs)" "k \<notin> set (map f ys)" by auto
  with r \<open>f r0 = k\<close> show ?thesis by blast
qed

lemma filter_key_absent: "k \<notin> f ` set rows \<Longrightarrow> filter (\<lambda>r. f r = k) rows = []"
  by (induction rows) auto

lemma replace_absent:
  "k \<notin> set (map f xs) \<Longrightarrow> map (\<lambda>r. if f r = k then new else r) xs = xs"
  by (induction xs) auto

lemma replace_split:
  assumes "f r0 = k" "k \<notin> set (map f xs)" "k \<notin> set (map f ys)"
  shows "map (\<lambda>r. if f r = k then new else r) (xs @ r0 # ys) = xs @ new # ys"
  using assms by (simp add: replace_absent)

text \<open>The two ways an upsert succeeds: the row with the identifier is replaced in place, or
  a new row is appended.\<close>

lemma upsert_person_cases:
  assumes "upsert_person rows pid nm ag em = Inr rows'" "distinct (map row_id rows)"
  shows "(\<exists>xs r0 ys. rows = xs @ r0 # ys \<and> row_id r0 = pid
            \<and> pid \<notin> set (map row_id xs) \<and> pid \<notin> set (map row_id ys)
            \<and> rows' = xs @ \<lparr>row_id = pid, row_name = nm, row_age = ag, row_email = em\<rparr> # ys)
         \<or> (pid \<notin> set (map row_id rows)
            \<and> rows' = rows @ [\<lparr>row_id = pid, row_name = nm, row_age = ag, row_email = em\<rparr>])"
proof (cases "pid \<in> set (map row_id rows)")
  case True
  from key_split [OF assms(2) True] obtain xs r0 ys where
    r: "rows = xs @ r0 # ys" "row_id r0 = pid"
      "pid \<notin> set (map row_id xs)" "pid \<notin> set (map row_id ys)" by blast
  from upsert_person_result [OF assms(1)] True
  have "rows' = map (\<lambda>r. if row_id r = pid
          then \<lparr>row_id = pid, row_name = nm, row_age = ag, row_email = em\<rparr> else r) rows"
    by simp
  also have "\<dots> = xs @ \<lparr>row_id = pid, row_name = nm, row_age = ag, row_email = em\<rparr> # ys"
    unfolding r(1) by (rule replace_split [OF r(2,3,4)])
  finally show ?thesis using r by blast
next
  case False
  with upsert_person_result [OF assms(1)] show ?thesis by simp
qed

lemma upsert_person_self:
  assumes "upsert_person rows pid nm ag em = Inr rows'" "distinct (map row_id rows)"
  shows "filter (\<lambda>r. row_id r = pid) rows'
         = [\<lparr>row_id = pid, row_name = nm, row_age = ag, row_email = em\<rparr>]"
  using upsert_person_cases [OF assms]
  by (auto simp: filter_key_absent)

lemma upsert_person_others:
  assumes "upsert_person rows pid nm ag em = Inr rows'" "distinct (map row_id rows)"
  shows "filter (\<lambda>r. row_id r \<noteq> pid) rows' = filter (\<lambda>r. row_id r \<noteq> pid) rows"
  using upsert_person_cases [OF assms] by auto

lemma upsert_person_ids:
  assumes "upsert_person rows pid nm ag em = Inr rows'" "distinct (map row_id rows)"
  shows "set (map row_id rows') = insert pid (set (map row_id rows))"
  using upsert_person_cases [OF assms] by auto

lemma upsert_person_distinct_ids:
  assumes "upsert_person rows pid nm ag em = Inr rows'" "distinct (map row_id rows)"
  shows "distinct (map row_id rows')"
  using upsert_person_cases [OF assms] assms(2) by auto

lemma upsert_person_distinct_emails:
  assumes "upsert_person rows pid nm ag em = Inr rows'"
    "distinct (map row_id rows)" "distinct (map row_email rows)"
  shows "distinct (map row_email rows')"
proof -
  from upsert_person_result [OF assms(1)]
  have nc: "\<forall>r \<in> set rows. row_email r = em \<longrightarrow> row_id r = pid" by simp
  from upsert_person_cases [OF assms(1,2)] show ?thesis
  proof (elim disjE exE conjE)
    fix xs r0 ys
    assume r: "rows = xs @ r0 # ys" "pid \<notin> set (map row_id xs)" "pid \<notin> set (map row_id ys)"
      and r': "rows' = xs @ \<lparr>row_id = pid, row_name = nm, row_age = ag, row_email = em\<rparr> # ys"
    have "\<forall>x \<in> set xs \<union> set ys. row_id x \<noteq> pid" using r(2,3) by auto
    moreover have "\<forall>x \<in> set xs \<union> set ys. row_email x = em \<longrightarrow> row_id x = pid"
      using nc unfolding r(1) by simp
    ultimately have "\<forall>x \<in> set xs \<union> set ys. row_email x \<noteq> em" by blast
    then have "em \<notin> set (map row_email xs)" "em \<notin> set (map row_email ys)" by auto
    with assms(3) show ?thesis unfolding r(1) r' by auto
  next
    assume f: "pid \<notin> set (map row_id rows)"
      and r': "rows' = rows @ [\<lparr>row_id = pid, row_name = nm, row_age = ag, row_email = em\<rparr>]"
    have "\<forall>x \<in> set rows. row_id x \<noteq> pid" using f by auto
    with nc have "\<forall>x \<in> set rows. row_email x \<noteq> em" by blast
    then have "em \<notin> set (map row_email rows)" by auto
    with assms(3) show ?thesis unfolding r' by simp
  qed
qed

lemma upsert_person_ints:
  assumes "upsert_person rows pid nm ag em = Inr rows'" "distinct (map row_id rows)"
    "list_all (\<lambda>r. sqlite_int (row_id r) \<and> sqlite_int (row_age r)) rows"
  shows "list_all (\<lambda>r. sqlite_int (row_id r) \<and> sqlite_int (row_age r)) rows'"
  using upsert_person_cases [OF assms(1,2)] upsert_person_result [OF assms(1)] assms(3)
  by auto

lemma upsert_student_wf:
  assumes "upsert_student db sid nm ag em = Inr db'" "wf_DB db"
  shows "wf_DB db'"
proof -
  from assms(1) obtain rows where r: "upsert_person (db_students db) sid nm ag em = Inr rows"
    and db': "db' = db\<lparr>db_students := rows\<rparr>"
    by (auto simp: upsert_student_def bindE_eq_Inr)
  from assms(2) have w: "distinct (map row_id (db_students db))"
    "distinct (map row_email (db_students db))"
    "list_all (\<lambda>r. sqlite_int (row_id r) \<and> sqlite_int (row_age r)) (db_students db)"
    "list_all (\<lambda>e. fst e \<in> set (map row_id (db_students db))
          \<and> snd e \<in> set (map crow_id (db_courses db))) (db_enrollments db)"
    by (simp_all add: wf_DB_def)
  have 1: "distinct (map row_id rows)" by (rule upsert_person_distinct_ids [OF r w(1)])
  have 2: "distinct (map row_email rows)" by (rule upsert_person_distinct_emails [OF r w(1,2)])
  have 3: "list_all (\<lambda>r. sqlite_int (row_id r) \<and> sqlite_int (row_age r)) rows"
    by (rule upsert_person_ints [OF r w(1,3)])
  have 4: "list_all (\<lambda>e. fst e \<in> set (map row_id rows)
          \<and> snd e \<in> set (map crow_id (db_courses db))) (db_enrollments db)"
    using w(4) upsert_person_ids [OF r w(1)] by (simp add: list_all_iff)
  from assms(2) 1 2 3 4 show ?thesis
    unfolding wf_DB_def db' by simp
qed

subsection \<open>\<^verbatim>\<open>DB.upsert_student\<close> and \<^verbatim>\<open>DB.list_students\<close>\<close>



lemma upsert_student_Inr:
  "upsert_student db sid nm ag em = Inr db' \<longleftrightarrow>
     (\<exists>rows. upsert_person (db_students db) sid nm ag em = Inr rows \<and> db' = db\<lparr>db_students := rows\<rparr>)"
  by (auto simp: upsert_student_def bindE_eq_Inr)

lemma collision_others:
  "list_ex (\<lambda>r. row_email r = em \<and> row_id r \<noteq> pid) rows
     \<longleftrightarrow> em \<in> set (map row_email (filter (\<lambda>r. row_id r \<noteq> pid) rows))"
  by (auto simp: list_ex_iff)

lemma upsert_student_all_ok:
  assumes "wf_DB db" "sqlite_int sid"
    and "\<forall>c \<in> set calls. sqlite_int (fst (snd c))
           \<and> \<not> list_ex (\<lambda>r. row_email r = snd (snd c) \<and> row_id r \<noteq> sid) (db_students db)"
  shows "\<exists>db'. upsert_student_all db sid calls = Inr db' \<and> wf_DB db'
           \<and> filter (\<lambda>r. row_id r \<noteq> sid) (db_students db')
               = filter (\<lambda>r. row_id r \<noteq> sid) (db_students db)
           \<and> (calls \<noteq> [] \<longrightarrow> filter (\<lambda>r. row_id r = sid) (db_students db')
                 = [\<lparr>row_id = sid, row_name = fst (last calls), row_age = fst (snd (last calls)),
                      row_email = snd (snd (last calls))\<rparr>])"
  using assms
proof (induction calls arbitrary: db)
  case Nil
  then show ?case by simp
next
  case (Cons c calls)
  obtain nm ag em where c: "c = (nm, ag, em)" by (cases c) auto
  from Cons.prems have d: "distinct (map row_id (db_students db))" by (simp add: wf_DB_def)
  from Cons.prems(3) have ok: "sqlite_int ag"
    "\<not> list_ex (\<lambda>r. row_email r = em \<and> row_id r \<noteq> sid) (db_students db)"
    by (simp_all add: c)
  from upsert_person_Inr [OF Cons.prems(2) ok, of nm]
  obtain rows where r: "upsert_person (db_students db) sid nm ag em = Inr rows" by simp
  define db1 where "db1 = db\<lparr>db_students := rows\<rparr>"
  have u: "upsert_student db sid nm ag em = Inr db1"
    by (simp add: upsert_student_Inr r db1_def)
  have wf1: "wf_DB db1" by (rule upsert_student_wf [OF u Cons.prems(1)])
  have oth: "filter (\<lambda>r. row_id r \<noteq> sid) (db_students db1)
               = filter (\<lambda>r. row_id r \<noteq> sid) (db_students db)"
    using upsert_person_others [OF r d] by (simp add: db1_def)
  have self: "filter (\<lambda>r. row_id r = sid) (db_students db1)
               = [\<lparr>row_id = sid, row_name = nm, row_age = ag, row_email = em\<rparr>]"
    using upsert_person_self [OF r d] by (simp add: db1_def)
  have rest: "\<forall>c \<in> set calls. sqlite_int (fst (snd c))
           \<and> \<not> list_ex (\<lambda>r. row_email r = snd (snd c) \<and> row_id r \<noteq> sid) (db_students db1)"
    using Cons.prems(3) unfolding collision_others oth by simp
  from Cons.IH [OF wf1 Cons.prems(2) rest] obtain db' where
    ih: "upsert_student_all db1 sid calls = Inr db'" "wf_DB db'"
      "filter (\<lambda>r. row_id r \<noteq> sid) (db_students db')
         = filter (\<lambda>r. row_id r \<noteq> sid) (db_students db1)"
      "calls \<noteq> [] \<longrightarrow> filter (\<lambda>r. row_id r = sid) (db_students db')
         = [\<lparr>row_id = sid, row_name = fst (last calls), row_age = fst (snd (last calls)),
              row_email = snd (snd (last calls))\<rparr>]"
    by blast
  have run: "upsert_student_all db sid (c # calls) = Inr db'"
    by (simp add: c u ih(1))
  show ?case
  proof (cases "calls = []")
    case True
    with ih(1) have "db' = db1" by simp
    with True run wf1 oth self show ?thesis by (simp add: c)
  next
    case False
    with run ih oth show ?thesis by simp
  qed
qed

lemma list_students_filter:
  "filter (\<lambda>r. P (fst r)) (list_students db)
     = map (\<lambda>r. (row_id r, row_name r, row_age r, row_email r))
         (sort_key row_id (filter (\<lambda>r. P (row_id r)) (db_students db)))"
  by (simp add: list_students_def filter_map comp_def filter_sort)

text \<open>
  C6 (as amended). Starting from a state that satisfies the schema, any number (at least one)
  of \<^verbatim>\<open>upsert_student\<close> calls with one identifier, each with 64-bit integers and an email that
  no student with another identifier holds, all succeed, and \<^verbatim>\<open>list_students\<close> then has
  exactly one row for that identifier, carrying the fields of the last call; the rows of the
  other identifiers are as before. A call whose email is held by a student with another
  identifier raises \<^verbatim>\<open>IntegrityError\<close> and writes nothing.
\<close>

theorem upsert_student_idempotent_overwrite:
  "(wf_DB db \<and> sqlite_int sid \<and> calls \<noteq> []
      \<and> (\<forall>c \<in> set calls. sqlite_int (fst (snd c))
           \<and> \<not> list_ex (\<lambda>r. row_email r = snd (snd c) \<and> row_id r \<noteq> sid) (db_students db))
    \<longrightarrow> (\<exists>db'. upsert_student_all db sid calls = Inr db' \<and> wf_DB db'
           \<and> filter (\<lambda>r. fst r = sid) (list_students db') = [(sid, last calls)]
           \<and> filter (\<lambda>r. fst r \<noteq> sid) (list_students db')
               = filter (\<lambda>r. fst r \<noteq> sid) (list_students db)))
   \<and> (sqlite_int sid \<and> sqlite_int ag
        \<and> list_ex (\<lambda>r. row_email r = em \<and> row_id r \<noteq> sid) (db_students db)
    \<longrightarrow> upsert_student db sid nm ag em = Inl IntegrityError)"
proof (intro conjI impI)
  assume a: "wf_DB db \<and> sqlite_int sid \<and> calls \<noteq> []
      \<and> (\<forall>c \<in> set calls. sqlite_int (fst (snd c))
           \<and> \<not> list_ex (\<lambda>r. row_email r = snd (snd c) \<and> row_id r \<noteq> sid) (db_students db))"
  then have "wf_DB db" "sqlite_int sid" "calls \<noteq> []"
    "\<forall>c \<in> set calls. sqlite_int (fst (snd c))
           \<and> \<not> list_ex (\<lambda>r. row_email r = snd (snd c) \<and> row_id r \<noteq> sid) (db_students db)"
    by blast+
  from upsert_student_all_ok [OF this(1,2,4)] this(3) obtain db' where
    r: "upsert_student_all db sid calls = Inr db'" "wf_DB db'"
      "filter (\<lambda>r. row_id r \<noteq> sid) (db_students db')
         = filter (\<lambda>r. row_id r \<noteq> sid) (db_students db)"
      "filter (\<lambda>r. row_id r = sid) (db_students db')
         = [\<lparr>row_id = sid, row_name = fst (last calls), row_age = fst (snd (last calls)),
              row_email = snd (snd (last calls))\<rparr>]"
    by blast
  have 1: "filter (\<lambda>r. fst r = sid) (list_students db') = [(sid, last calls)]"
    using list_students_filter [of "\<lambda>i. i = sid" db'] r(4) by simp
  have 2: "filter (\<lambda>r. fst r \<noteq> sid) (list_students db')
               = filter (\<lambda>r. fst r \<noteq> sid) (list_students db)"
    using list_students_filter [of "\<lambda>i. i \<noteq> sid" db'] list_students_filter [of "\<lambda>i. i \<noteq> sid" db] r(3)
    by simp
  from r(1,2) 1 2
  show "\<exists>db'. upsert_student_all db sid calls = Inr db' \<and> wf_DB db'
           \<and> filter (\<lambda>r. fst r = sid) (list_students db') = [(sid, last calls)]
           \<and> filter (\<lambda>r. fst r \<noteq> sid) (list_students db')
               = filter (\<lambda>r. fst r \<noteq> sid) (list_students db)"
    by blast
next
  assume "sqlite_int sid \<and> sqlite_int ag
        \<and> list_ex (\<lambda>r. row_email r = em \<and> row_id r \<noteq> sid) (db_students db)"
  then show "upsert_student db sid nm ag em = Inl IntegrityError"
    by (simp add: upsert_student_def upsert_person_collision)
qed

theorem upsert_student_idempotent_overwrite_witness:
  "(\<exists>db'. upsert_student_all sample_DB 1 [(''Ann'', 20, ''ann@x.com''), (''Anna'', 21, ''anna@x.com'')]
            = Inr db'
      \<and> filter (\<lambda>r. fst r = 1) (list_students db') = [(1, ''Anna'', 21, ''anna@x.com'')])
   \<and> upsert_student sample_DB 1 ''Ann'' 20 ''bob@x.com'' = Inl IntegrityError"
proof -
  have h: "wf_DB sample_DB \<and> sqlite_int 1
      \<and> [(''Ann'', 20, ''ann@x.com''), (''Anna'', 21, ''anna@x.com'')] \<noteq> []
      \<and> (\<forall>c \<in> set [(''Ann'', 20, ''ann@x.com''), (''Anna'', 21, ''anna@x.com'')].
            sqlite_int (fst (snd c))
           \<and> \<not> list_ex (\<lambda>r. row_email r = snd (snd c) \<and> row_id r \<noteq> 1) (db_students sample_DB))"
    by code_simp
  have g: "sqlite_int 1 \<and> sqlite_int 20
        \<and> list_ex (\<lambda>r. row_email r = ''bob@x.com'' \<and> row_id r \<noteq> 1) (db_students sample_DB)"
    by code_simp
  from h g upsert_student_idempotent_overwrite
     [of sample_DB 1 "[(''Ann'', 20, ''ann@x.com''), (''Anna'', 21, ''anna@x.com'')]" 20 "''bob@x.com''" "''Ann''"]
  show ?thesis by force
qed

text \<open>C6 as stated fails: the email of the call is held by student 2, the call raises, and
  \<^verbatim>\<open>list_students\<close> of the state it leaves has no row for identifier 3.\<close>

theorem upsert_student_collision_counterexample:
  "upsert_student sample_DB 3 ''Cy'' 30 ''bob@x.com'' = Inl IntegrityError
   \<and> filter (\<lambda>r. fst r = 3) (list_students sample_DB) = []"
  by code_simp

subsection \<open>Enrolling twice\<close>


lemma count_list_snoc_new: "x \<notin> set xs \<Longrightarrow> count_list (xs @ [x]) x = 1"
  by (simp add: count_list_0_iff)



lemma commit_eq: "commit c = \<lparr>disk = work c, work = work c\<rparr>"
  by (cases c) (simp add: commit_def)






subsection \<open>Order of the listings\<close>

lemma sorted_concat_groups:
  assumes "sorted (map key xs)" "\<And>x y. x \<in> set xs \<Longrightarrow> y \<in> set (g x) \<Longrightarrow> f y = key x"
  shows "sorted (map f (concat (map g xs)))"
  using assms
proof (induction xs)
  case Nil
  then show ?case by simp
next
  case (Cons x xs)
  have same: "\<forall>y \<in> set (g x). f y = key x" using Cons.prems(2) by simp
  have rest: "\<forall>z \<in> set (concat (map g xs)). key x \<le> f z"
  proof
    fix z assume "z \<in> set (concat (map g xs))"
    then obtain x' where x': "x' \<in> set xs" "z \<in> set (g x')" by auto
    with Cons.prems(2) have "f z = key x'" by simp
    moreover from Cons.prems(1) x'(1) have "key x \<le> key x'" by simp
    ultimately show "key x \<le> f z" by simp
  qed
  have head: "sorted (map f (g x))"
  proof -
    from same have "map f (g x) = replicate (length (g x)) (key x)"
      by (simp add: map_replicate_const [symmetric] cong: map_cong)
    then show ?thesis by (simp add: sorted_replicate)
  qed
  have tail: "sorted (map f (concat (map g xs)))"
    using Cons.IH Cons.prems by simp
  from head tail same rest show ?case
    by (simp add: sorted_append)
qed

lemma mapE_map:
  assumes "mapE f xs = Inr ys" "\<And>x y. f x = Inr y \<Longrightarrow> g y = h x"
  shows "map g ys = map h xs"
  using mapE_Inr [OF assms(1)] assms(2)
  by (induction xs ys rule: list_all2_induct) simp_all

lemma students_names:
  assumes "students c = Inr ss"
  shows "map name ss = map row_name (sort_key row_name (tbl_students (work c)))"
    and "map student_id ss = map row_id (sort_key row_name (tbl_students (work c)))"
  using assms unfolding students_def Let_def
  by (erule_tac [!] mapE_map) (simp_all add: Student_init_Inr)

lemma instructors_names:
  assumes "instructors c = Inr ins"
  shows "map name ins = map row_name (sort_key row_name (tbl_instructors (work c)))"
    and "map instructor_id ins = map row_id (sort_key row_name (tbl_instructors (work c)))"
  using assms unfolding instructors_def Let_def
  by (erule_tac [!] mapE_map) (simp_all add: Instructor_init_Inr)

lemma courses_names:
  assumes "courses c = Inr cs"
  shows "map course_name cs = map crow_name (sort_key crow_name (tbl_courses (work c)))"
  using assms
  by (auto simp: courses_def Let_def bindE_eq_Inr Course_init_def comp_def)

lemma list_courses_sorted: "sorted (map fst (list_courses db))"
  unfolding list_courses_def
  by (rule sorted_concat_groups [where key = crow_id]) (auto split: list.splits)

lemma distinct_map_sort_key: "distinct (map f (sort_key g xs)) = distinct (map f xs)"
  by (simp add: distinct_map)

text \<open>
  C9 (as amended). \<^verbatim>\<open>DB.list_students\<close>, \<^verbatim>\<open>list_instructors\<close> and \<^verbatim>\<open>list_courses\<close> return
  their rows ordered by primary identifier ascending (strictly, in a state satisfying the
  schema) and \<^verbatim>\<open>list_enrollments(course_id)\<close> returns its rows ordered by student
  identifier ascending; \<^verbatim>\<open>list_students\<close> returns exactly the rows of the table. The
  properties \<^verbatim>\<open>students\<close>, \<^verbatim>\<open>instructors\<close> and \<^verbatim>\<open>courses\<close> of \<^verbatim>\<open>SqliteSchoolDB\<close> return their
  entities ordered by name (courses by course name) ascending.
\<close>

theorem listings_ordered:
  "sorted (map fst (list_students db)) \<and> sorted (map fst (list_instructors db))
   \<and> sorted (map fst (list_courses db)) \<and> sorted (map fst (list_enrollments db cid))
   \<and> set (list_students db)
        = (\<lambda>r. (row_id r, row_name r, row_age r, row_email r)) ` set (db_students db)
   \<and> (wf_DB db \<longrightarrow> sorted_wrt (<) (map fst (list_students db))
                   \<and> sorted_wrt (<) (map fst (list_instructors db)))
   \<and> (students c = Inr ss \<longrightarrow> sorted (map name ss))
   \<and> (instructors c = Inr ins \<longrightarrow> sorted (map name ins))
   \<and> (courses c = Inr cs \<longrightarrow> sorted (map course_name cs))"
proof -
  have 1: "sorted (map fst (list_students db))"
    by (simp add: list_students_def comp_def)
  have 2: "sorted (map fst (list_instructors db))"
    by (simp add: list_instructors_def comp_def)
  have 3: "sorted (map fst (list_enrollments db cid))"
    by (simp add: list_enrollments_def comp_def)
  have 4: "set (list_students db)
        = (\<lambda>r. (row_id r, row_name r, row_age r, row_email r)) ` set (db_students db)"
    by (simp add: list_students_def)
  have 5: "wf_DB db \<longrightarrow> sorted_wrt (<) (map fst (list_students db))
                   \<and> sorted_wrt (<) (map fst (list_instructors db))"
    using 1 2
    by (simp add: strict_sorted_iff wf_DB_def list_students_def list_instructors_def comp_def
        distinct_map_sort_key)
  have 6: "students c = Inr ss \<longrightarrow> sorted (map name ss)"
    by (simp add: students_names(1))
  have 7: "instructors c = Inr ins \<longrightarrow> sorted (map name ins)"
    by (simp add: instructors_names(1))
  have 8: "courses c = Inr cs \<longrightarrow> sorted (map course_name cs)"
    by (simp add: courses_names)
  from 1 2 3 4 5 6 7 8 list_courses_sorted [of db] show ?thesis by blast
qed

theorem listings_ordered_witness:
  "sorted_wrt (<) (map fst (list_students sample_DB)) \<and> map fst (list_students sample_DB) = [1, 2]
   \<and> students sample_conn = Inr [ann, zed] \<and> sorted (map name [ann, zed])"
proof -
  have h: "wf_DB sample_DB" by code_simp
  have g: "students sample_conn = Inr [ann, zed]" by code_simp
  have k: "map fst (list_students sample_DB) = [1, 2]" by code_simp
  from h g k listings_ordered [of sample_DB 10 sample_conn "[ann, zed]" "[]" "[]"]
  show ?thesis by blast
qed

text \<open>C9 as stated fails for \<^verbatim>\<open>SqliteSchoolDB.students\<close>: it orders by name, so Ann (\<open>s2\<close>)
  comes before Zed (\<open>s1\<close>).\<close>

theorem students_by_name_counterexample:
  "students sample_conn = Inr [ann, zed]
   \<and> map student_id [ann, zed] = [''s2'', ''s1''] \<and> \<not> sorted [''s2'', ''s1'']"
  by code_simp

subsection \<open>Ages\<close>







text \<open>\<^verbatim>\<open>SqliteSchoolDB.update_student\<close> stores a negative age as well.\<close>

lemma update_student_negative_age:
  "map row_age (tbl_students (disk (snd (update_student sample_conn ''s1'' None (Some (- 1)) None None))))
     = [- 1, 20]"
  by code_simp

subsection \<open>Methods as runs of statements\<close>

lemma run_rel:
  assumes refl: "\<And>t. P t t"
    and trans: "\<And>t t' t''. P t t' \<Longrightarrow> P t' t'' \<Longrightarrow> P t t''"
    and step: "\<And>stmt t t'. stmt \<in> set stmts \<Longrightarrow> stmt t = Inr t' \<Longrightarrow> P t t'"
  shows "P (work c) (work (snd (run stmts c)))"
  using step
proof (induction stmts arbitrary: c)
  case Nil
  show ?case by (simp add: commit_eq refl)
next
  case (Cons stmt stmts)
  show ?case
  proof (cases "stmt (work c)")
    case (Inl e)
    then show ?thesis by (simp add: refl)
  next
    case (Inr t)
    have "P (work c) t" using Cons.prems [of stmt "work c" t] Inr by simp
    moreover have "P (work (c\<lparr>work := t\<rparr>)) (work (snd (run stmts (c\<lparr>work := t\<rparr>))))"
      by (rule Cons.IH) (meson Cons.prems list.set_intros(2))
    ultimately show ?thesis using Inr trans by simp
  qed
qed

lemma run_disk:
  "(fst (run stmts c) = None \<longrightarrow> disk (snd (run stmts c)) = work (snd (run stmts c)))
   \<and> (fst (run stmts c) \<noteq> None \<longrightarrow> disk (snd (run stmts c)) = disk c)"
proof (induction stmts arbitrary: c)
  case Nil
  show ?case by (simp add: commit_eq)
next
  case (Cons stmt stmts)
  show ?case
  proof (cases "stmt (work c)")
    case (Inl e)
    then show ?thesis by simp
  next
    case (Inr t)
    with Cons.IH [of "c\<lparr>work := t\<rparr>"] show ?thesis by simp
  qed
qed

lemma run_fails:
  assumes "I (work c)"
    and "\<And>stmt t t'. stmt \<in> set xs \<Longrightarrow> I t \<Longrightarrow> stmt t = Inr t' \<Longrightarrow> I t'"
    and "\<And>c. I (work c) \<Longrightarrow> fst (run ys c) \<noteq> None"
  shows "fst (run (xs @ ys) c) \<noteq> None"
  using assms(1,2)
proof (induction xs arbitrary: c)
  case Nil
  then show ?case by (simp add: assms(3))
next
  case (Cons stmt xs)
  show ?case
  proof (cases "stmt (work c)")
    case (Inl e)
    then show ?thesis by simp
  next
    case (Inr t)
    have "I t" using Cons.prems(2) [of stmt "work c" t] Cons.prems(1) Inr by simp
    then have "I (work (c\<lparr>work := t\<rparr>))" by simp
    then have "fst (run (xs @ ys) (c\<lparr>work := t\<rparr>)) \<noteq> None"
      by (rule Cons.IH) (meson Cons.prems(2) list.set_intros(2))
    with Inr show ?thesis by simp
  qed
qed

subsection \<open>\<^verbatim>\<open>SqliteSchoolDB.update_course\<close>\<close>

lemma map_if_same: "map f (map (\<lambda>r. if P r then g r else r) rows) = map f rows"
  if "\<And>r. f (g r) = f r"
  using that by (induction rows) simp_all

lemma update_course_name_instructors:
  "sql_update_course_name v cid t = Inr t' \<Longrightarrow>
     map crow_instructor (tbl_courses t') = map crow_instructor (tbl_courses t)
     \<and> map crow_id (tbl_courses t') = map crow_id (tbl_courses t)"
  by (auto simp: sql_update_course_name_def map_if_same)

lemma update_registrations_course_courses:
  "sql_update_registrations_course new old t = Inr t' \<Longrightarrow> tbl_courses t' = tbl_courses t"
  by (auto simp: sql_update_registrations_course_def Let_def split: if_splits)

lemma update_course_id_instructors:
  "sql_update_course_id new old t = Inr t' \<Longrightarrow>
     map crow_instructor (tbl_courses t') = map crow_instructor (tbl_courses t)"
  by (auto simp: sql_update_course_id_def map_if_same split: if_splits)

lemma update_course_instructor_kept:
  "sql_update_course_instructor (Some i) cid t = Inr t' \<Longrightarrow>
     list_all2 (\<lambda>k k'. crow_instructor k \<noteq> None \<longrightarrow> crow_instructor k' \<noteq> None)
       (tbl_courses t) (tbl_courses t')"
  by (auto simp: sql_update_course_instructor_def list_all2_map2 list_all2_same split: if_splits)

lemma update_course_stmts_instructors:
  assumes "stmt \<in> set ((case nm of None \<Rightarrow> [] | Some v \<Rightarrow> [sql_update_course_name v cid])
        @ (case new_id of None \<Rightarrow> []
           | Some n \<Rightarrow> if n \<noteq> cid
                then [sql_update_registrations_course n cid, sql_update_course_id n cid]
                else []))"
    and "stmt t = Inr t'"
  shows "map crow_instructor (tbl_courses t') = map crow_instructor (tbl_courses t)"
  using assms
  by (auto split: option.splits if_splits
      dest: update_course_name_instructors update_registrations_course_courses
        update_course_id_instructors)

lemma update_course_None_instructors:
  "map crow_instructor (tbl_courses (work (snd (update_course c cid nm None new_id))))
     = map crow_instructor (tbl_courses (work c))"
  unfolding update_course_def option.case append_Nil
  by (rule run_rel [where P = "\<lambda>t t'. map crow_instructor (tbl_courses t')
        = map crow_instructor (tbl_courses t)"])
    (simp_all add: update_course_stmts_instructors)

lemma update_course_stmts_kept:
  assumes "stmt \<in> set ((case nm of None \<Rightarrow> [] | Some v \<Rightarrow> [sql_update_course_name v cid])
        @ (case iid of None \<Rightarrow> [] | Some i \<Rightarrow> [sql_update_course_instructor (Some i) cid])
        @ (case new_id of None \<Rightarrow> []
           | Some n \<Rightarrow> if n \<noteq> cid
                then [sql_update_registrations_course n cid, sql_update_course_id n cid]
                else []))"
    and "stmt t = Inr t'"
  shows "list_all2 (\<lambda>k k'. crow_instructor k \<noteq> None \<longrightarrow> crow_instructor k' \<noteq> None)
           (tbl_courses t) (tbl_courses t')"
proof -
  let ?P = "\<lambda>k k'. crow_instructor k \<noteq> None \<longrightarrow> crow_instructor k' \<noteq> None"
  have eq: "list_all2 ?P (tbl_courses t) (tbl_courses t')"
    if "map crow_instructor (tbl_courses t') = map crow_instructor (tbl_courses t)"
  proof -
    from that have "list_all2 (\<lambda>k k'. crow_instructor k' = crow_instructor k)
        (tbl_courses t) (tbl_courses t')"
      by (simp add: list_all2_conv_all_nth list_eq_iff_nth_eq)
    then show ?thesis by (rule list_all2_mono) simp
  qed
  from assms consider
      (name) v where "sql_update_course_name v cid t = Inr t'"
    | (instr) i where "sql_update_course_instructor (Some i) cid t = Inr t'"
    | (regs) n where "sql_update_registrations_course n cid t = Inr t'"
    | (ident) n where "sql_update_course_id n cid t = Inr t'"
    by (auto split: option.splits if_splits)
  then show ?thesis
  proof cases
    case name
    then show ?thesis by (intro eq) (simp add: update_course_name_instructors)
  next
    case instr
    then show ?thesis by (rule update_course_instructor_kept)
  next
    case regs
    then show ?thesis by (intro eq) (simp add: update_registrations_course_courses)
  next
    case ident
    then show ?thesis by (intro eq) (simp add: update_course_id_instructors)
  qed
qed

lemma update_course_never_clears:
  "list_all2 (\<lambda>k k'. crow_instructor k \<noteq> None \<longrightarrow> crow_instructor k' \<noteq> None)
     (tbl_courses (work c)) (tbl_courses (work (snd (update_course c cid nm iid new_id))))"
  unfolding update_course_def
proof (rule run_rel [where P = "\<lambda>t t'. list_all2
      (\<lambda>k k'. crow_instructor k \<noteq> None \<longrightarrow> crow_instructor k' \<noteq> None)
      (tbl_courses t) (tbl_courses t')"], goal_cases)
  case (1 t)
  show ?case by (simp add: list_all2_same)
next
  case (2 t t' t'')
  then show ?case by (rule list_all2_trans [rotated]) simp
next
  case (3 stmt t t')
  then show ?case by (rule update_course_stmts_kept)
qed

lemma update_course_no_rename_ids:
  "map crow_id (tbl_courses (work (snd (update_course c cid nm None None))))
     = map crow_id (tbl_courses (work c))"
  unfolding update_course_def option.case append_Nil append_Nil2
  by (rule run_rel [where P = "\<lambda>t t'. map crow_id (tbl_courses t') = map crow_id (tbl_courses t)"])
    (auto split: option.splits dest: update_course_name_instructors)

text \<open>
  C10. \<^verbatim>\<open>update_course\<close> with \<^verbatim>\<open>instructor_id=None\<close> (or omitted) leaves the
  \<^verbatim>\<open>instructor_id\<close> column of every course row as it was, whatever the other arguments are
  and whether the call returns or raises; without \<^verbatim>\<open>new_id\<close> the course identifiers stay
  as well. With any arguments at all, a course that has an instructor before the call has one
  after it: \<^verbatim>\<open>update_course\<close> cannot clear an assigned instructor.
\<close>

theorem update_course_None_keeps_instructor:
  "map crow_instructor (tbl_courses (work (snd (update_course c cid nm None new_id))))
     = map crow_instructor (tbl_courses (work c))
   \<and> map crow_id (tbl_courses (work (snd (update_course c cid nm None None))))
     = map crow_id (tbl_courses (work c))
   \<and> (fst (update_course c cid nm None new_id) = None
        \<longrightarrow> disk (snd (update_course c cid nm None new_id))
              = work (snd (update_course c cid nm None new_id)))
   \<and> list_all2 (\<lambda>k k'. crow_instructor k \<noteq> None \<longrightarrow> crow_instructor k' \<noteq> None)
        (tbl_courses (work c)) (tbl_courses (work (snd (update_course c cid nm iid new_id))))"
proof -
  have "fst (update_course c cid nm None new_id) = None
        \<longrightarrow> disk (snd (update_course c cid nm None new_id))
              = work (snd (update_course c cid nm None new_id))"
    unfolding update_course_def using run_disk by blast
  with update_course_None_instructors [of c cid nm new_id] update_course_no_rename_ids [of c cid nm]
    update_course_never_clears [of c cid nm iid new_id]
  show ?thesis by blast
qed

theorem update_course_None_keeps_instructor_witness:
  "update_course sample_conn ''c1'' (Some ''Algebra'') None None
     = (None, \<lparr>disk = sample_store\<lparr>tbl_courses :=
                  [\<lparr>crow_id = ''c1'', crow_name = ''Algebra'', crow_instructor = Some ''i1''\<rparr>]\<rparr>,
               work = sample_store\<lparr>tbl_courses :=
                  [\<lparr>crow_id = ''c1'', crow_name = ''Algebra'', crow_instructor = Some ''i1''\<rparr>]\<rparr>\<rparr>)
   \<and> map crow_instructor (tbl_courses (work (snd (update_course sample_conn ''c1'' (Some ''Algebra'') None None))))
     = [Some ''i1'']"
proof -
  have a: "update_course sample_conn ''c1'' (Some ''Algebra'') None None
     = (None, \<lparr>disk = sample_store\<lparr>tbl_courses :=
                  [\<lparr>crow_id = ''c1'', crow_name = ''Algebra'', crow_instructor = Some ''i1''\<rparr>]\<rparr>,
               work = sample_store\<lparr>tbl_courses :=
                  [\<lparr>crow_id = ''c1'', crow_name = ''Algebra'', crow_instructor = Some ''i1''\<rparr>]\<rparr>\<rparr>)"
    by code_simp
  have b: "map crow_instructor (tbl_courses (work sample_conn)) = [Some ''i1'']" by code_simp
  from a b update_course_None_keeps_instructor [of sample_conn "''c1''" "Some ''Algebra''" None None]
  show ?thesis by simp
qed

subsection \<open>Deleting a student or an instructor\<close>

lemma fold_upd_lookup:
  "fold (\<lambda>s m. m(f s \<mapsto> s)) xs m0 k = Some v \<Longrightarrow> (v \<in> set xs \<and> f v = k) \<or> m0 k = Some v"
proof (induction xs arbitrary: m0)
  case Nil
  then show ?case by simp
next
  case (Cons x xs)
  from Cons.IH [of "m0(f x \<mapsto> x)"] Cons.prems
  have "(v \<in> set xs \<and> f v = k) \<or> (m0(f x \<mapsto> x)) k = Some v" by simp
  then show ?case by (auto split: if_splits)
qed

lemma courses_Inr:
  assumes "courses c = Inr cs"
  obtains ins stus where "instructors c = Inr ins" "students c = Inr stus"
    "cs = map (\<lambda>r. Course_init (crow_id r) (crow_name r)
            (case crow_instructor r of None \<Rightarrow> None
             | Some i \<Rightarrow> fold (\<lambda>i m. m(instructor_id i \<mapsto> i)) ins Map.empty i)
            (Some (concat (map (\<lambda>sid. case fold (\<lambda>s m. m(student_id s \<mapsto> s)) stus Map.empty sid of
                                         None \<Rightarrow> [] | Some s \<Rightarrow> [s])
                    (get_or (fold (\<lambda>e m. setdefault_append m (snd e) (fst e))
                               (tbl_registrations (work c)) Map.empty) (crow_id r) [])))))
          (sort_key crow_name (tbl_courses (work c)))"
  using assms by (auto simp: courses_def Let_def bindE_eq_Inr)

lemma courses_enrolled_ids:
  assumes "courses c = Inr cs" "k \<in> set cs" "s \<in> set (enrolled_students k)"
  shows "student_id s \<in> set (map row_id (tbl_students (work c)))"
proof -
  from assms(1) obtain ins stus where st: "students c = Inr stus"
    and cs: "cs = map (\<lambda>r. Course_init (crow_id r) (crow_name r)
            (case crow_instructor r of None \<Rightarrow> None
             | Some i \<Rightarrow> fold (\<lambda>i m. m(instructor_id i \<mapsto> i)) ins Map.empty i)
            (Some (concat (map (\<lambda>sid. case fold (\<lambda>s m. m(student_id s \<mapsto> s)) stus Map.empty sid of
                                         None \<Rightarrow> [] | Some s \<Rightarrow> [s])
                    (get_or (fold (\<lambda>e m. setdefault_append m (snd e) (fst e))
                               (tbl_registrations (work c)) Map.empty) (crow_id r) [])))))
          (sort_key crow_name (tbl_courses (work c)))"
    by (rule courses_Inr)
  from assms(2,3) obtain sid where
    "s \<in> set (case fold (\<lambda>s m. m(student_id s \<mapsto> s)) stus Map.empty sid of
                None \<Rightarrow> [] | Some s \<Rightarrow> [s])"
    unfolding cs by (auto simp: Course_init_def)
  then have "fold (\<lambda>s m. m(student_id s \<mapsto> s)) stus Map.empty sid = Some s"
    by (auto split: option.splits)
  from fold_upd_lookup [OF this] have "s \<in> set stus" by simp
  then have "student_id s \<in> set (map student_id stus)" by simp
  then show ?thesis unfolding students_names(2) [OF st] by simp
qed

lemma courses_instructor_ids:
  assumes "courses c = Inr cs" "k \<in> set cs" "instructor k = Some i"
  shows "instructor_id i \<in> set (map row_id (tbl_instructors (work c)))"
proof -
  from assms(1) obtain ins stus where ins: "instructors c = Inr ins"
    and cs: "cs = map (\<lambda>r. Course_init (crow_id r) (crow_name r)
            (case crow_instructor r of None \<Rightarrow> None
             | Some i \<Rightarrow> fold (\<lambda>i m. m(instructor_id i \<mapsto> i)) ins Map.empty i)
            (Some (concat (map (\<lambda>sid. case fold (\<lambda>s m. m(student_id s \<mapsto> s)) stus Map.empty sid of
                                         None \<Rightarrow> [] | Some s \<Rightarrow> [s])
                    (get_or (fold (\<lambda>e m. setdefault_append m (snd e) (fst e))
                               (tbl_registrations (work c)) Map.empty) (crow_id r) [])))))
          (sort_key crow_name (tbl_courses (work c)))"
    by (rule courses_Inr)
  from assms(2,3) obtain j where
    "fold (\<lambda>i m. m(instructor_id i \<mapsto> i)) ins Map.empty j = Some i"
    unfolding cs by (auto simp: Course_init_def split: option.splits)
  from fold_upd_lookup [OF this] have "i \<in> set ins" by simp
  then have "instructor_id i \<in> set (map instructor_id ins)" by simp
  then show ?thesis unfolding instructors_names(2) [OF ins] by simp
qed

lemma delete_student_result:
  assumes "sid \<in> set (map row_id (tbl_students (work c)))"
  shows "delete_student c sid =
     (None, \<lparr>disk = (work c)\<lparr>tbl_students := filter (\<lambda>r. row_id r \<noteq> sid) (tbl_students (work c)),
                       tbl_registrations := filter (\<lambda>e. fst e \<noteq> sid) (tbl_registrations (work c))\<rparr>,
             work = (work c)\<lparr>tbl_students := filter (\<lambda>r. row_id r \<noteq> sid) (tbl_students (work c)),
                       tbl_registrations := filter (\<lambda>e. fst e \<noteq> sid) (tbl_registrations (work c))\<rparr>\<rparr>)"
  using assms
  by (simp add: delete_student_def sql_delete_student_def list_ex_id commit_eq)

lemma delete_instructor_result:
  assumes "iid \<in> set (map row_id (tbl_instructors (work c)))"
  shows "delete_instructor c iid =
     (None, \<lparr>disk = (work c)\<lparr>tbl_instructors := filter (\<lambda>r. row_id r \<noteq> iid) (tbl_instructors (work c)),
                       tbl_courses := map (\<lambda>c. if crow_instructor c = Some iid
                            then c\<lparr>crow_instructor := None\<rparr> else c) (tbl_courses (work c))\<rparr>,
             work = (work c)\<lparr>tbl_instructors := filter (\<lambda>r. row_id r \<noteq> iid) (tbl_instructors (work c)),
                       tbl_courses := map (\<lambda>c. if crow_instructor c = Some iid
                            then c\<lparr>crow_instructor := None\<rparr> else c) (tbl_courses (work c))\<rparr>\<rparr>)"
  using assms
  by (simp add: delete_instructor_def sql_delete_instructor_def list_ex_id commit_eq)

text \<open>
  C2. For every student identifier present in the store, \<^verbatim>\<open>delete_student\<close> returns and
  commits; it removes the student row and every registration row of that student, and only
  those. Afterwards no hydrated student has that identifier and the enrolled students of no
  course include it.
\<close>

theorem delete_student_cascades:
  "sid \<in> set (map row_id (tbl_students (work c))) \<longrightarrow>
     (\<exists>c'. delete_student c sid = (None, c') \<and> disk c' = work c'
        \<and> sid \<notin> set (map row_id (tbl_students (work c')))
        \<and> sid \<notin> set (map fst (tbl_registrations (work c')))
        \<and> tbl_students (work c') = filter (\<lambda>r. row_id r \<noteq> sid) (tbl_students (work c))
        \<and> tbl_registrations (work c') = filter (\<lambda>e. fst e \<noteq> sid) (tbl_registrations (work c))
        \<and> tbl_courses (work c') = tbl_courses (work c)
        \<and> tbl_instructors (work c') = tbl_instructors (work c)
        \<and> (\<forall>ss. students c' = Inr ss \<longrightarrow> sid \<notin> set (map student_id ss))
        \<and> (\<forall>cs. courses c' = Inr cs \<longrightarrow>
              (\<forall>k \<in> set cs. sid \<notin> set (map student_id (enrolled_students k)))))"
proof
  assume a: "sid \<in> set (map row_id (tbl_students (work c)))"
  define t' where "t' = (work c)\<lparr>tbl_students := filter (\<lambda>r. row_id r \<noteq> sid) (tbl_students (work c)),
                       tbl_registrations := filter (\<lambda>e. fst e \<noteq> sid) (tbl_registrations (work c))\<rparr>"
  define c' where "c' = \<lparr>disk = t', work = t'\<rparr>"
  have r: "delete_student c sid = (None, c')"
    unfolding c'_def t'_def by (rule delete_student_result [OF a])
  have gone: "sid \<notin> set (map row_id (tbl_students (work c')))"
    by (auto simp: c'_def t'_def)
  have 1: "\<forall>ss. students c' = Inr ss \<longrightarrow> sid \<notin> set (map student_id ss)"
    using gone by (auto simp: students_names(2))
  have 2: "\<forall>cs. courses c' = Inr cs \<longrightarrow>
              (\<forall>k \<in> set cs. sid \<notin> set (map student_id (enrolled_students k)))"
    using gone courses_enrolled_ids [of c'] by fastforce
  have 3: "sid \<notin> set (map fst (tbl_registrations (work c')))"
    by (auto simp: c'_def t'_def)
  from r gone 1 2 3 show "\<exists>c'. delete_student c sid = (None, c') \<and> disk c' = work c'
        \<and> sid \<notin> set (map row_id (tbl_students (work c')))
        \<and> sid \<notin> set (map fst (tbl_registrations (work c')))
        \<and> tbl_students (work c') = filter (\<lambda>r. row_id r \<noteq> sid) (tbl_students (work c))
        \<and> tbl_registrations (work c') = filter (\<lambda>e. fst e \<noteq> sid) (tbl_registrations (work c))
        \<and> tbl_courses (work c') = tbl_courses (work c)
        \<and> tbl_instructors (work c') = tbl_instructors (work c)
        \<and> (\<forall>ss. students c' = Inr ss \<longrightarrow> sid \<notin> set (map student_id ss))
        \<and> (\<forall>cs. courses c' = Inr cs \<longrightarrow>
              (\<forall>k \<in> set cs. sid \<notin> set (map student_id (enrolled_students k))))"
    by (intro exI [of _ c']) (simp add: c'_def t'_def)
qed

theorem delete_student_cascades_witness:
  "courses sample_conn = Inr [cs101]
   \<and> (\<exists>c'. delete_student sample_conn ''s1'' = (None, c')
        \<and> tbl_registrations (work c') = []
        \<and> map row_id (tbl_students (work c')) = [''s2'']
        \<and> courses c' = Inr [cs101\<lparr>enrolled_students := []\<rparr>])"
proof -
  have h: "''s1'' \<in> set (map row_id (tbl_students (work sample_conn)))" by code_simp
  have a: "courses sample_conn = Inr [cs101]" by code_simp
  have b: "filter (\<lambda>e. fst e \<noteq> ''s1'') (tbl_registrations (work sample_conn)) = []" by code_simp
  have d: "map row_id (filter (\<lambda>r. row_id r \<noteq> ''s1'') (tbl_students (work sample_conn))) = [''s2'']"
    by code_simp
  have e: "courses (snd (delete_student sample_conn ''s1'')) = Inr [cs101\<lparr>enrolled_students := []\<rparr>]"
    by code_simp
  from h delete_student_cascades [of "''s1''" sample_conn] obtain c' where
    c': "delete_student sample_conn ''s1'' = (None, c')"
      "tbl_students (work c') = filter (\<lambda>r. row_id r \<noteq> ''s1'') (tbl_students (work sample_conn))"
      "tbl_registrations (work c')
         = filter (\<lambda>e. fst e \<noteq> ''s1'') (tbl_registrations (work sample_conn))"
    by blast
  from c'(1) e have "courses c' = Inr [cs101\<lparr>enrolled_students := []\<rparr>]" by simp
  with a b d c' show ?thesis by simp
qed

text \<open>
  C3. For every instructor identifier present in the store, \<^verbatim>\<open>delete_instructor\<close> returns and
  commits; the instructor row is gone, every course row is still there with its identifier
  and name, the courses that named the instructor now have a null \<^verbatim>\<open>instructor_id\<close>, and
  the others keep theirs. No hydrated course has that instructor afterwards.
\<close>

theorem delete_instructor_sets_null:
  "iid \<in> set (map row_id (tbl_instructors (work c))) \<longrightarrow>
     (\<exists>c'. delete_instructor c iid = (None, c') \<and> disk c' = work c'
        \<and> iid \<notin> set (map row_id (tbl_instructors (work c')))
        \<and> list_all2 (\<lambda>k k'. crow_id k' = crow_id k \<and> crow_name k' = crow_name k
               \<and> crow_instructor k' = (if crow_instructor k = Some iid then None
                                        else crow_instructor k))
             (tbl_courses (work c)) (tbl_courses (work c'))
        \<and> tbl_registrations (work c') = tbl_registrations (work c)
        \<and> tbl_students (work c') = tbl_students (work c)
        \<and> (\<forall>cs. courses c' = Inr cs \<longrightarrow>
              (\<forall>k \<in> set cs. \<forall>i. instructor k = Some i \<longrightarrow> instructor_id i \<noteq> iid)))"
proof
  assume a: "iid \<in> set (map row_id (tbl_instructors (work c)))"
  define t' where "t' = (work c)\<lparr>tbl_instructors := filter (\<lambda>r. row_id r \<noteq> iid) (tbl_instructors (work c)),
                       tbl_courses := map (\<lambda>c. if crow_instructor c = Some iid
                            then c\<lparr>crow_instructor := None\<rparr> else c) (tbl_courses (work c))\<rparr>"
  define c' where "c' = \<lparr>disk = t', work = t'\<rparr>"
  have r: "delete_instructor c iid = (None, c')"
    unfolding c'_def t'_def by (rule delete_instructor_result [OF a])
  have gone: "iid \<notin> set (map row_id (tbl_instructors (work c')))"
    by (auto simp: c'_def t'_def)
  have 1: "\<forall>cs. courses c' = Inr cs \<longrightarrow>
              (\<forall>k \<in> set cs. \<forall>i. instructor k = Some i \<longrightarrow> instructor_id i \<noteq> iid)"
    using gone courses_instructor_ids [of c'] by blast
  have 2: "list_all2 (\<lambda>k k'. crow_id k' = crow_id k \<and> crow_name k' = crow_name k
               \<and> crow_instructor k' = (if crow_instructor k = Some iid then None
                                        else crow_instructor k))
             (tbl_courses (work c)) (tbl_courses (work c'))"
    by (simp add: c'_def t'_def list_all2_map2 list_all2_same)
  from r gone 1 2 show "\<exists>c'. delete_instructor c iid = (None, c') \<and> disk c' = work c'
        \<and> iid \<notin> set (map row_id (tbl_instructors (work c')))
        \<and> list_all2 (\<lambda>k k'. crow_id k' = crow_id k \<and> crow_name k' = crow_name k
               \<and> crow_instructor k' = (if crow_instructor k = Some iid then None
                                        else crow_instructor k))
             (tbl_courses (work c)) (tbl_courses (work c'))
        \<and> tbl_registrations (work c') = tbl_registrations (work c)
        \<and> tbl_students (work c') = tbl_students (work c)
        \<and> (\<forall>cs. courses c' = Inr cs \<longrightarrow>
              (\<forall>k \<in> set cs. \<forall>i. instructor k = Some i \<longrightarrow> instructor_id i \<noteq> iid))"
    by (intro exI [of _ c']) (simp add: c'_def t'_def)
qed

theorem delete_instructor_sets_null_witness:
  "courses sample_conn = Inr [cs101]
   \<and> (\<exists>c'. delete_instructor sample_conn ''i1'' = (None, c')
        \<and> tbl_courses (work c')
            = [\<lparr>crow_id = ''c1'', crow_name = ''CS101'', crow_instructor = None\<rparr>]
        \<and> courses c' = Inr [cs101\<lparr>instructor := None\<rparr>])"
proof -
  have h: "''i1'' \<in> set (map row_id (tbl_instructors (work sample_conn)))" by code_simp
  have a: "courses sample_conn = Inr [cs101]" by code_simp
  have b: "tbl_courses (work sample_conn)
            = [\<lparr>crow_id = ''c1'', crow_name = ''CS101'', crow_instructor = Some ''i1''\<rparr>]"
    by code_simp
  have e: "courses (snd (delete_instructor sample_conn ''i1'')) = Inr [cs101\<lparr>instructor := None\<rparr>]"
    by code_simp
  from h delete_instructor_sets_null [of "''i1''" sample_conn] obtain c' where
    c': "delete_instructor sample_conn ''i1'' = (None, c')"
      "list_all2 (\<lambda>k k'. crow_id k' = crow_id k \<and> crow_name k' = crow_name k
               \<and> crow_instructor k' = (if crow_instructor k = Some ''i1'' then None
                                        else crow_instructor k))
             (tbl_courses (work sample_conn)) (tbl_courses (work c'))"
    by blast
  from c'(2) have "tbl_courses (work c')
            = [\<lparr>crow_id = ''c1'', crow_name = ''CS101'', crow_instructor = None\<rparr>]"
    unfolding b by (auto simp: list_all2_Cons1)
  moreover from c'(1) e have "courses c' = Inr [cs101\<lparr>instructor := None\<rparr>]" by simp
  ultimately show ?thesis using a c'(1) by simp
qed

subsection \<open>Renaming a student\<close>

lemma set_field_ids:
  "map row_id (set_name v pid rows) = map row_id rows"
  "map row_id (set_age a pid rows) = map row_id rows"
  "map row_id (set_email v pid rows) = map row_id rows"
  by (simp_all add: set_name_def set_age_def set_email_def map_if_same)

lemma update_student_fields_keep:
  assumes "stmt \<in> set ((case nm of None \<Rightarrow> [] | Some v \<Rightarrow> [sql_update_student_name v sid])
        @ (case ag of None \<Rightarrow> [] | Some v \<Rightarrow> [sql_update_student_age v sid])
        @ (case em of None \<Rightarrow> [] | Some v \<Rightarrow> [sql_update_student_email v sid]))"
    and "stmt t = Inr t'"
  shows "map row_id (tbl_students t') = map row_id (tbl_students t)
         \<and> tbl_registrations t' = tbl_registrations t"
  using assms
  by (auto simp: sql_update_student_name_def sql_update_student_age_def
      sql_update_student_email_def set_field_ids split: option.splits if_splits)

lemma rename_statements_raise:
  assumes "sid \<in> set (map row_id (tbl_students (work c)))"
    "sid \<in> set (map fst (tbl_registrations (work c)))" "new \<noteq> sid"
  shows "fst (run [sql_update_registrations_student new sid, sql_update_student_id new sid] c)
           \<noteq> None"
proof (cases "sql_update_registrations_student new sid (work c)")
  case (Inl e)
  then show ?thesis by simp
next
  case (Inr t)
  from assms(2) have hit: "filter (\<lambda>e. fst e = sid) (tbl_registrations (work c)) \<noteq> []"
    by (auto simp: filter_empty_conv)
  from Inr hit assms(3) have "new \<in> set (map row_id (tbl_students (work c)))"
    and "tbl_students t = tbl_students (work c)"
    by (auto simp: sql_update_registrations_student_def Let_def list_ex_id split: if_splits)
  with assms(1,3) have "sql_update_student_id new sid t = Inl IntegrityError"
    by (simp add: sql_update_student_id_def list_ex_id)
  with Inr show ?thesis by simp
qed

text \<open>
  Whatever the other arguments are, \<^verbatim>\<open>update_student\<close> with a \<^verbatim>\<open>new_id\<close> raises when a
  registration refers to the student: either statement of the rename violates a constraint.
  Nothing is committed by the call.
\<close>

lemma update_student_rename_raises:
  assumes "sid \<in> set (map row_id (tbl_students (work c)))"
    "sid \<in> set (map fst (tbl_registrations (work c)))" "new \<noteq> sid"
  shows "fst (update_student c sid nm ag em (Some new)) \<noteq> None
         \<and> disk (snd (update_student c sid nm ag em (Some new))) = disk c"
proof -
  let ?I = "\<lambda>t. sid \<in> set (map row_id (tbl_students t)) \<and> sid \<in> set (map fst (tbl_registrations t))"
  let ?xs = "(case nm of None \<Rightarrow> [] | Some v \<Rightarrow> [sql_update_student_name v sid])
        @ (case ag of None \<Rightarrow> [] | Some v \<Rightarrow> [sql_update_student_age v sid])
        @ (case em of None \<Rightarrow> [] | Some v \<Rightarrow> [sql_update_student_email v sid])"
  let ?ys = "[sql_update_registrations_student new sid, sql_update_student_id new sid]"
  have u: "update_student c sid nm ag em (Some new) = run (?xs @ ?ys) c"
    using assms(3) by (simp add: update_student_def)
  have "fst (run (?xs @ ?ys) c) \<noteq> None"
  proof (rule run_fails [where I = ?I])
    show "?I (work c)" using assms(1,2) by simp
  next
    fix stmt t t'
    assume s: "stmt \<in> set ?xs" "stmt t = Inr t'" and i: "?I t"
    from update_student_fields_keep [OF s] i show "?I t'" by simp
  next
    fix c' :: conn
    assume "?I (work c')"
    then show "fst (run ?ys c') \<noteq> None"
      using rename_statements_raise [of sid c' new] assms(3) by simp
  qed
  with run_disk [of "?xs @ ?ys" c] show ?thesis unfolding u by simp
qed

text \<open>
  C1 at a concrete input. Student \<open>s1\<close> has one registration. Renaming it to the unused
  identifier \<open>s9\<close> together with a new name raises \<^verbatim>\<open>IntegrityError\<close>: the student row and the
  registration keep the old identifier, the new name stays in the open transaction, and the
  next method that commits (here a registration of \<open>s2\<close>) writes it to disk.
\<close>

theorem update_student_rename_fails:
  "update_student sample_conn ''s1'' (Some ''Bob'') None None (Some ''s9'')
     = (Some IntegrityError,
        \<lparr>disk = sample_store,
         work = sample_store\<lparr>tbl_students :=
           [\<lparr>row_id = ''s1'', row_name = ''Bob'', row_age = 21, row_email = ''zed@x.com''\<rparr>,
            \<lparr>row_id = ''s2'', row_name = ''Ann'', row_age = 20, row_email = ''ann@x.com''\<rparr>]\<rparr>\<rparr>)
   \<and> tbl_students (disk (snd (register_student_in_course
        (snd (update_student sample_conn ''s1'' (Some ''Bob'') None None (Some ''s9'')))
        ''s2'' ''c1'')))
     = [\<lparr>row_id = ''s1'', row_name = ''Bob'', row_age = 21, row_email = ''zed@x.com''\<rparr>,
        \<lparr>row_id = ''s2'', row_name = ''Ann'', row_age = 20, row_email = ''ann@x.com''\<rparr>]"
  by code_simp

text \<open>Renaming to an identifier that is taken moves the registrations to the other student in
  the open transaction and then raises.\<close>

lemma update_student_rename_taken:
  "update_student sample_conn ''s1'' None None None (Some ''s2'')
     = (Some IntegrityError,
        \<lparr>disk = sample_store, work = sample_store\<lparr>tbl_registrations := [(''s2'', ''c1'')]\<rparr>\<rparr>)"
  by code_simp

end
